theory Spec2Isabelle
  imports Complex_Main "HOL-Library.Word"
begin

section \<open>Go values used by the display server\<close>

subsection \<open>float64\<close>

text \<open>
  A \<open>float64\<close> is a finite number, an infinity or NaN; the sign of zero is not modelled.
  The comparisons are false on NaN, infinities and NaN propagate, and a zero divisor is
  \<open>+0\<close>, which is what \<open>float64(n)\<close> gives for the integer \<open>n = 0\<close>.

  The difference \<open>a - b\<close>, which the program compares with a threshold, is rounded as
  IEEE 754 rounds it: to the nearest number with 53 significant bits, a tie to the one
  whose last bit is zero, with an exponent from -1022 (below it the numbers are the
  multiples of \<open>2^-1074\<close>) to 1023 (above it the result is an infinity). The sum, the
  product and the quotient are kept exact: their rounding is not modelled.
\<close>

datatype float64 = Finite real | PosInf | NegInf | NaN

definition pow2 :: "int \<Rightarrow> real" where
  "pow2 k = (if 0 \<le> k then 2 ^ nat k else 1 / 2 ^ nat (- k))"

text \<open>
  The exponent \<open>e\<close> of a positive number \<open>a\<close>: \<open>2^e <= a < 2^(e+1)\<close>, searched upwards
  from 0 for \<open>a >= 1\<close> and downwards otherwise, and kept between -1022 and 1024.
\<close>

function exponent_up :: "real \<Rightarrow> int \<Rightarrow> int" where
  "exponent_up a e = (if 2 \<le> a \<and> e < 1024 then exponent_up (a / 2) (e + 1) else e)"
  by pat_completeness auto
termination
  by (relation "measure (\<lambda>(a, e). nat (1024 - e))") auto

declare exponent_up.simps [simp del]

function exponent_down :: "real \<Rightarrow> int \<Rightarrow> int" where
  "exponent_down a e = (if a < 1 \<and> - 1022 < e then exponent_down (a * 2) (e - 1) else e)"
  by pat_completeness auto
termination
  by (relation "measure (\<lambda>(a, e). nat (e + 1022))") auto

declare exponent_down.simps [simp del]

definition exponent :: "real \<Rightarrow> int" where
  "exponent a = (if 1 \<le> a then exponent_up a 0 else exponent_down a 0)"

definition round_half_even :: "real \<Rightarrow> int" where
  "round_half_even q =
     (if q - of_int \<lfloor>q\<rfloor> < 1 / 2 then \<lfloor>q\<rfloor>
      else if 1 / 2 < q - of_int \<lfloor>q\<rfloor> then \<lfloor>q\<rfloor> + 1
      else if even \<lfloor>q\<rfloor> then \<lfloor>q\<rfloor> else \<lfloor>q\<rfloor> + 1)"

text \<open>
  The \<open>float64\<close> nearest to a real: a whole number of units in the last place
  \<open>2^(e-52)\<close>. A real is a \<open>float64\<close> when rounding leaves it as it is.
\<close>

definition round64 :: "real \<Rightarrow> float64" where
  "round64 x =
     (if x = 0 then Finite 0
      else
        let ulp = pow2 (exponent \<bar>x\<bar> - 52);
            y = of_int (round_half_even (x / ulp)) * ulp
        in if 2 ^ 1024 \<le> \<bar>y\<bar> then (if 0 < x then PosInf else NegInf) else Finite y)"

fun fneg :: "float64 \<Rightarrow> float64" where
  "fneg (Finite a) = Finite (- a)"
| "fneg PosInf = NegInf"
| "fneg NegInf = PosInf"
| "fneg NaN = NaN"

fun fadd :: "float64 \<Rightarrow> float64 \<Rightarrow> float64" where
  "fadd (Finite a) (Finite b) = Finite (a + b)"
| "fadd NaN _ = NaN"
| "fadd _ NaN = NaN"
| "fadd PosInf NegInf = NaN"
| "fadd NegInf PosInf = NaN"
| "fadd PosInf _ = PosInf"
| "fadd _ PosInf = PosInf"
| "fadd NegInf _ = NegInf"
| "fadd _ NegInf = NegInf"

definition fsub :: "float64 \<Rightarrow> float64 \<Rightarrow> float64" where
  "fsub a b =
     (case (a, b) of
        (Finite x, Finite y) \<Rightarrow> round64 (x - y)
      | _ \<Rightarrow> fadd a (fneg b))"


fun fdiv :: "float64 \<Rightarrow> float64 \<Rightarrow> float64" where
  "fdiv (Finite a) (Finite b) =
     (if b = 0 then (if a = 0 then NaN else if 0 < a then PosInf else NegInf)
      else Finite (a / b))"
| "fdiv NaN _ = NaN"
| "fdiv _ NaN = NaN"
| "fdiv (Finite a) PosInf = Finite 0"
| "fdiv (Finite a) NegInf = Finite 0"
| "fdiv PosInf (Finite b) = (if b < 0 then NegInf else PosInf)"
| "fdiv NegInf (Finite b) = (if b < 0 then PosInf else NegInf)"
| "fdiv PosInf PosInf = NaN"
| "fdiv PosInf NegInf = NaN"
| "fdiv NegInf PosInf = NaN"
| "fdiv NegInf NegInf = NaN"

text \<open>The comparison \<open>a < b\<close>: false as soon as one side is NaN.\<close>

fun flt :: "float64 \<Rightarrow> float64 \<Rightarrow> bool" where
  "flt (Finite a) (Finite b) = (a < b)"
| "flt NaN _ = False"
| "flt _ NaN = False"
| "flt NegInf NegInf = False"
| "flt NegInf _ = True"
| "flt _ NegInf = False"
| "flt PosInf _ = False"
| "flt _ PosInf = True"

definition fgt :: "float64 \<Rightarrow> float64 \<Rightarrow> bool" where
  "fgt a b = flt b a"

text \<open>The comparison \<open>a != b\<close>: true as soon as one side is NaN.\<close>

definition fne :: "float64 \<Rightarrow> float64 \<Rightarrow> bool" where
  "fne a b = (a = NaN \<or> b = NaN \<or> a \<noteq> b)"

text \<open>The conversion \<open>float64(n)\<close> of an integer.\<close>

definition float64_of_int :: "int \<Rightarrow> float64" where
  "float64_of_int n = Finite (of_int n)"

subsection \<open>Errors and panics\<close>

text \<open>
  An \<open>error\<close> is its message, so \<open>fmt.Errorf("do: %w", err)\<close> is \<open>''do: '' @ err\<close>.
  A call either returns or panics; a function with a pointer receiver returns its
  \<open>error\<close> (\<open>None\<close> is \<open>nil\<close>) with the receiver as the call left it.
\<close>

type_synonym error = string

datatype panic =
    IndexOutOfRange int int
  | MakeSliceLenOutOfRange
  | HugeOrNegativeDimensions
  | ReflectTypeOfZeroValue

datatype 'a outcome = Return 'a | Panicked panic

subsection \<open>Allocation\<close>

text \<open>
  \<open>make\<close> of a slice panics when the length is negative or when the elements take more
  than \<open>maxAlloc\<close> bytes, which is \<open>2^48\<close> where the runtime manages 48 bits of
  addresses, as on linux/amd64. An allocation within this limit is taken to succeed:
  running out of memory is not modelled.
\<close>

definition maxAlloc :: int where
  "maxAlloc = 2 ^ 48"

definition makeslice_panics :: "int \<Rightarrow> int \<Rightarrow> bool" where
  "makeslice_panics elemSize len = (len < 0 \<or> maxAlloc < elemSize * len)"

subsection \<open>time.Time and time.Duration\<close>

text \<open>
  A \<open>Time\<close> is the number of nanoseconds since the zero \<open>Time\<close>; a \<open>Duration\<close> is
  a 64-bit count of nanoseconds, and \<open>Time.Sub\<close> saturates at its bounds.
\<close>

type_synonym Time = int
type_synonym Duration = int

definition zeroTime :: Time where
  "zeroTime = 0"

definition IsZero :: "Time \<Rightarrow> bool" where
  "IsZero t = (t = zeroTime)"

definition minDuration :: Duration where
  "minDuration = - (2 ^ 63)"

definition maxDuration :: Duration where
  "maxDuration = 2 ^ 63 - 1"

definition Second :: Duration where
  "Second = 1000000000"

definition Minute :: Duration where
  "Minute = 60 * Second"

definition Hour :: Duration where
  "Hour = 60 * Minute"

definition Sub :: "Time \<Rightarrow> Time \<Rightarrow> Duration" where
  "Sub t u = (if t - u < minDuration then minDuration
              else if maxDuration < t - u then maxDuration else t - u)"

definition Add :: "Time \<Rightarrow> Duration \<Rightarrow> Time" where
  "Add t dur = t + dur"

section \<open>Package mesonet\<close>

text \<open>The value that \<open>encoding/json\<close> decodes into an \<open>interface{}\<close>.\<close>

datatype json =
    JNull
  | JBool bool
  | JNumber float64
  | JString string
  | JArray "json list"
  | JObject "(string \<times> json) list"

record Variable =
  ID :: string
  Units :: string

record Request =
  Endpoint :: string
  Dataset :: string
  Start :: Time
  End :: Time
  Stations :: "string list"
  Variables :: "Variable list"

record Attr =
  LongName :: string
  ScaleFactor :: float64
  Units :: string

record RawDataVar =
  Attrs :: Attr
  Data :: "json list"
  Dimensions :: "string list"

record DataVar =
  FloatData :: "float64 list"
  StringData :: "string list"
  TimeData :: "Time list"
  RawData :: "json list"
  Attrs :: Attr
  Dimensions :: "string list"

text \<open>
  Of \<open>Response\<close> only the two maps of variables are read by the program; its
  \<open>Attrs\<close> and \<open>Dimensions\<close> fields are left out.
\<close>

record Response =
  Coords :: "string \<rightharpoonup> DataVar"
  DataVars :: "string \<rightharpoonup> DataVar"

record Result =
  Response :: Response
  Success :: bool

definition zeroAttr :: Attr where
  "zeroAttr = \<lparr>LongName = [], ScaleFactor = Finite 0, Attr.Units = []\<rparr>"

definition zeroDataVar :: DataVar where
  "zeroDataVar = \<lparr>FloatData = [], StringData = [], TimeData = [], RawData = [],
     DataVar.Attrs = zeroAttr, DataVar.Dimensions = []\<rparr>"

text \<open>Indexing a Go map: a missing key gives the zero value.\<close>

definition index_map :: "(string \<rightharpoonup> DataVar) \<Rightarrow> string \<Rightarrow> DataVar" where
  "index_map m k = (case m k of None \<Rightarrow> zeroDataVar | Some v \<Rightarrow> v)"

subsection \<open>DataVar.UnmarshalJSON\<close>










section \<open>Package pages: the display\<close>

record OutputConfig =
  Width :: int
  Height :: int

text \<open>
  The mutable fields of \<open>Display\<close>. \<open>image\<close> is a pointer into the store of
  images (\<open>None\<close> is \<open>nil\<close>); \<open>screen\<close> is a slice of byte slices. The clients
  and the InfluxDB configuration are part of the environment.
\<close>

type_synonym addr = nat

record Display =
  outputConfig :: OutputConfig
  Temperature :: float64
  LastHourTemperature :: float64
  RelativeHumidity :: float64
  LastHourRelativeHumidity :: float64
  OutdoorTemperature :: float64
  LastHourOutdoorTemperature :: float64
  MesonetLastData :: Time
  image :: "addr option"
  screen :: "string list"

subsection \<open>updateOutdoorTemperature\<close>

text \<open>
  What the job takes from outside: the two readings of the clock (\<open>time.Since\<close> and
  \<open>time.Now\<close>), the call \<open>mesonet.Do\<close> and the \<open>%#v\<close> printer of \<open>fmt\<close>.
\<close>

record mesonet_env =
  clock_since :: Time
  clock_now :: Time
  mesonet_Do :: "Request \<Rightarrow> error + Result"
  sharp_v :: "(string \<rightharpoonup> DataVar) \<Rightarrow> string"

definition Since :: "mesonet_env \<Rightarrow> Time \<Rightarrow> Duration" where
  "Since env t = Sub (clock_since env) t"

definition tair_request :: "Time \<Rightarrow> Request" where
  "tair_request now =
     \<lparr>Endpoint = ''https://api.nysmesonet.org/data/dynserv/timeseries2'',
      Dataset = ''nysm'',
      Start = Add now (- Hour),
      End = now,
      Stations = [''bkln''],
      Variables = [\<lparr>ID = ''tair'', Variable.Units = ''degF''\<rparr>]\<rparr>"

text \<open>
  The loop over \<open>tair\<close>, from index \<open>i\<close> on. The state is \<open>(n, sum, last, lastUpdate)\<close>
  (\<open>sum1\<close> and \<open>last1\<close> below, the plain names being list functions of HOL);
  the source declares the counter \<open>n\<close> and no statement of the loop assigns it.
  Reading \<open>TimeData[i]\<close> beyond the end of the time coordinate panics.
\<close>

fun tair_loop ::
  "Time list \<Rightarrow> nat \<Rightarrow> float64 list \<Rightarrow> int \<times> float64 \<times> float64 \<times> Time
     \<Rightarrow> (int \<times> float64 \<times> float64 \<times> Time) outcome" where
  "tair_loop td i [] st = Return st"
| "tair_loop td i (t # ts) (n, sum1, last1, lastUpdate) =
     (if fne t (Finite 0) then
        (if i < length td then
           (let update = td ! i in
            tair_loop td (Suc i) ts
              (n, fadd sum1 t, t, if \<not> IsZero update then update else lastUpdate))
         else Panicked (IndexOutOfRange (int i) (int (length td))))
      else tair_loop td (Suc i) ts (n, sum1, last1, lastUpdate))"

text \<open>
  The job returns the requests it sent to the weather station together with its outcome.
\<close>

definition updateOutdoorTemperature ::
  "mesonet_env \<Rightarrow> Display \<Rightarrow> Request list \<times> (error option \<times> Display) outcome" where
  "updateOutdoorTemperature env d =
     (let lastPoint = MesonetLastData d in
      if Since env lastPoint < 6 * Minute then ([], Return (None, d))
      else
        let now = clock_now env;
            req = tair_request now
        in case mesonet_Do env req of
             Inl err \<Rightarrow> ([req], Return (Some (''do: '' @ err), d))
           | Inr res \<Rightarrow>
               let tair = FloatData (index_map (DataVars (Response res)) ''tair'') in
               if length tair = 0 then
                 ([req], Return (Some (''no data points returned (datavars: ''
                           @ sharp_v env (DataVars (Response res)) @ '')''), d))
               else
                 case tair_loop (TimeData (index_map (Coords (Response res)) ''time'')) 0 tair
                        (0, Finite 0, Finite 0, zeroTime) of
                   Panicked p \<Rightarrow> ([req], Panicked p)
                 | Return (n, sum1, last1, lastUpdate) \<Rightarrow>
                     ([req], Return (None,
                        d\<lparr>OutdoorTemperature := last1,
                          LastHourOutdoorTemperature := fdiv sum1 (float64_of_int n),
                          MesonetLastData := lastUpdate\<rparr>)))"

subsection \<open>Formatting integers\<close>

text \<open>The decimal digits that \<open>%d\<close> and \<open>%v\<close> print for an \<open>int\<close>.\<close>

fun show_nat :: "nat \<Rightarrow> string" where
  "show_nat n =
     (if n < 10 then [''0123456789'' ! n]
      else show_nat (n div 10) @ [''0123456789'' ! (n mod 10)])"

declare show_nat.simps [simp del]

definition show_int :: "int \<Rightarrow> string" where
  "show_int i = (if i < 0 then ''-'' @ show_nat (nat (- i)) else show_nat (nat i))"

subsection \<open>The InfluxDB jobs\<close>

text \<open>
  The four Flux queries are constants of the program; the environment answers each with
  what the client returned: an error of \<open>Query\<close>, no row, a \<open>nil\<close> record, or a
  row with its value (a \<open>float64\<close>, a value of another type with its \<open>%#v\<close> text, or
  \<open>nil\<close>, on which \<open>reflect.Value.Type\<close> panics). The target of every call in the
  program is the address of a \<open>float64\<close> field, given here as the assignment to it.
\<close>

datatype query = TemperatureLast | TemperatureMean | HumidityLast | HumidityMean

datatype influx_value = FloatValue float64 | OtherValue string | NilValue

datatype influx_reply =
    QueryError error
  | NoRows string
  | NilRecord string
  | Row influx_value

record update_env =
  influx_Query :: "query \<Rightarrow> influx_reply"
  mesonet :: mesonet_env
  ctx_Err :: error

definition queryOneInflux ::
  "update_env \<Rightarrow> query \<Rightarrow> (float64 \<Rightarrow> Display \<Rightarrow> Display) \<Rightarrow> Display
     \<Rightarrow> (error option \<times> Display) outcome" where
  "queryOneInflux env q target d =
     (case influx_Query env q of
        QueryError err \<Rightarrow> Return (Some (''query: '' @ err), d)
      | NoRows cause \<Rightarrow> Return (Some (''no rows (possibly caused by: '' @ cause @ '')''), d)
      | NilRecord cause \<Rightarrow> Return (Some (''nil record (possibly caused by: '' @ cause @ '')''), d)
      | Row NilValue \<Rightarrow> Panicked ReflectTypeOfZeroValue
      | Row (OtherValue printed) \<Rightarrow>
          Return (Some (''record value '' @ printed @ '' not assignable to '' @ printed), d)
      | Row (FloatValue x) \<Rightarrow> Return (None, target x d))"

definition wrap_query :: "(error option \<times> Display) outcome \<Rightarrow> (error option \<times> Display) outcome" where
  "wrap_query r =
     (case r of
        Return (Some err, d) \<Rightarrow> Return (Some (''query: '' @ err), d)
      | _ \<Rightarrow> r)"

definition updateTemperature :: "update_env \<Rightarrow> Display \<Rightarrow> (error option \<times> Display) outcome" where
  "updateTemperature env d =
     wrap_query (queryOneInflux env TemperatureLast (\<lambda>x d. d\<lparr>Temperature := x\<rparr>) d)"

definition updateLastHourTemperature ::
  "update_env \<Rightarrow> Display \<Rightarrow> (error option \<times> Display) outcome" where
  "updateLastHourTemperature env d =
     wrap_query (queryOneInflux env TemperatureMean (\<lambda>x d. d\<lparr>LastHourTemperature := x\<rparr>) d)"

definition updateRelativeHumidity ::
  "update_env \<Rightarrow> Display \<Rightarrow> (error option \<times> Display) outcome" where
  "updateRelativeHumidity env d =
     wrap_query (queryOneInflux env HumidityLast (\<lambda>x d. d\<lparr>RelativeHumidity := x\<rparr>) d)"

definition updateLastHourRelativeHumidity ::
  "update_env \<Rightarrow> Display \<Rightarrow> (error option \<times> Display) outcome" where
  "updateLastHourRelativeHumidity env d =
     wrap_query (queryOneInflux env HumidityMean (\<lambda>x d. d\<lparr>LastHourRelativeHumidity := x\<rparr>) d)"

subsection \<open>update\<close>

text \<open>
  \<open>update\<close> starts one goroutine per job and receives \<open>nq\<close> times from the
  unbuffered channel \<open>doneCh\<close>. A goroutine runs its job; if the job fails it sends
  the wrapped error, and then, in either case, it sends \<open>nil\<close>. So a goroutine is
  running, blocked on the send of its error, blocked on the send of \<open>nil\<close>, or gone.

  The order of the events is chosen by the scheduler and given as a list: \<open>Finish k\<close>,
  the job of goroutine \<open>k\<close> returns (a job takes the lock for its writes, and the
  jobs write different fields, so a job is one step); \<open>Receive k\<close>, the loop of
  \<open>update\<close> receives what goroutine \<open>k\<close> is sending; \<open>Done\<close>, the loop takes
  the case \<open>ctx.Done()\<close>. A list that asks for an event that cannot happen, or that
  ends before the loop has received \<open>nq\<close> times, is no run of \<open>update\<close>
  (\<open>None\<close>); events after the last receive happen after \<open>update\<close> has returned.
\<close>

datatype goroutine = Running | SendingErr error | SendingNil | Exited

datatype event = Finish nat | Receive nat | Done

record update_state =
  disp :: Display
  procs :: "goroutine list"
  errs :: "error list"
  received :: nat

definition jobs ::
  "update_env \<Rightarrow> ((Display \<Rightarrow> (error option \<times> Display) outcome) \<times> string) list" where
  "jobs env =
     [(updateTemperature env, ''get temperature''),
      (updateLastHourTemperature env, ''get last hour temperature''),
      (updateRelativeHumidity env, ''get relative humidity''),
      (updateLastHourRelativeHumidity env, ''get last hour relative humidity''),
      (\<lambda>d. snd (updateOutdoorTemperature (mesonet env) d), ''get outdoor temperature'')]"

definition step :: "update_env \<Rightarrow> update_state \<Rightarrow> event \<Rightarrow> update_state outcome option" where
  "step env st ev =
     (case ev of
        Finish k \<Rightarrow>
          (if k < length (procs st) \<and> procs st ! k = Running then
             (case fst (jobs env ! k) (disp st) of
                Panicked p \<Rightarrow> Some (Panicked p)
              | Return (None, d') \<Rightarrow>
                  Some (Return (st\<lparr>disp := d', procs := (procs st)[k := SendingNil]\<rparr>))
              | Return (Some err, d') \<Rightarrow>
                  Some (Return (st\<lparr>disp := d',
                    procs := (procs st)[k := SendingErr (snd (jobs env ! k) @ '': '' @ err)]\<rparr>)))
           else None)
      | Receive k \<Rightarrow>
          (if k < length (procs st) then
             (case procs st ! k of
                SendingErr err \<Rightarrow>
                  Some (Return (st\<lparr>procs := (procs st)[k := SendingNil],
                    errs := errs st @ [err], received := received st + 1\<rparr>))
              | SendingNil \<Rightarrow>
                  Some (Return (st\<lparr>procs := (procs st)[k := Exited],
                    received := received st + 1\<rparr>))
              | _ \<Rightarrow> None)
           else None)
      | Done \<Rightarrow>
          Some (Return (st\<lparr>errs := errs st @ [ctx_Err env], received := received st + 1\<rparr>)))"

fun receive_loop :: "update_env \<Rightarrow> nat \<Rightarrow> update_state \<Rightarrow> event list \<Rightarrow> update_state outcome option" where
  "receive_loop env nq st evs =
     (if \<not> received st < nq then Some (Return st)
      else case evs of
             [] \<Rightarrow> None
           | ev # rest \<Rightarrow>
               (case step env st ev of
                  None \<Rightarrow> None
                | Some (Panicked p) \<Rightarrow> Some (Panicked p)
                | Some (Return st') \<Rightarrow> receive_loop env nq st' rest))"

declare receive_loop.simps [simp del]

fun Join :: "string list \<Rightarrow> string \<Rightarrow> string" where
  "Join [] sep = []"
| "Join [a] sep = a"
| "Join (a # b # rest) sep = a @ sep @ Join (b # rest) sep"

definition update ::
  "update_env \<Rightarrow> event list \<Rightarrow> Display \<Rightarrow> (error option \<times> Display) outcome option" where
  "update env schedule d =
     (let nq = length (jobs env) in
      case receive_loop env nq \<lparr>disp = d, procs = replicate nq Running, errs = [], received = 0\<rparr> schedule of
        None \<Rightarrow> None
      | Some (Panicked p) \<Rightarrow> Some (Panicked p)
      | Some (Return st) \<Rightarrow>
          Some (Return
            (if length (errs st) > 0
             then Some (show_int (int (length (errs st))) @ '' errors: ''
                        @ Join (errs st) [CHR 0x0A])
             else None,
             disp st)))"

text \<open>
  For the proofs about every schedule: a job that succeeds, or fails with the same error,
  whatever the display holds; the number of messages of goroutine \<open>k\<close> the loop has
  received, when \<open>f\<close> is the goroutine whose job fails; and the invariant of the loop,
  with \<open>w\<close> the wrapped error of the failing job.
\<close>

definition job_succeeds :: "update_env \<Rightarrow> nat \<Rightarrow> bool" where
  "job_succeeds env k = (\<forall>d. \<exists>d'. fst (jobs env ! k) d = Return (None, d'))"

definition job_fails :: "update_env \<Rightarrow> nat \<Rightarrow> error \<Rightarrow> bool" where
  "job_fails env k err = (\<forall>d. \<exists>d'. fst (jobs env ! k) d = Return (Some err, d'))"

definition taken :: "nat \<Rightarrow> nat \<Rightarrow> goroutine \<Rightarrow> nat" where
  "taken f k p =
     (case p of
        Running \<Rightarrow> 0
      | SendingErr err \<Rightarrow> 0
      | SendingNil \<Rightarrow> (if k = f then 1 else 0)
      | Exited \<Rightarrow> (if k = f then 2 else 1))"

definition consistent :: "nat \<Rightarrow> error \<Rightarrow> update_state \<Rightarrow> bool" where
  "consistent f w st =
     (length (procs st) = 5
      \<and> (\<forall>k<5. \<forall>err. procs st ! k = SendingErr err \<longrightarrow> k = f \<and> err = w)
      \<and> errs st = (if f < 5 \<and> (procs st ! f = SendingNil \<or> procs st ! f = Exited) then [w] else [])
      \<and> received st = (\<Sum>k<5. taken f k (procs st ! k)))"

subsection \<open>Packages image and image/color\<close>

text \<open>
  A \<open>color.RGBA\<close> has four 8-bit channels. An \<open>image.RGBA\<close> is kept pixel by pixel:
  \<open>Pix\<close> holds one colour where the Go slice holds four bytes, and \<open>Stride\<close> counts
  pixels. A \<open>Rectangle\<close> is written with its four coordinates \<open>Min.X\<close>, \<open>Min.Y\<close>,
  \<open>Max.X\<close>, \<open>Max.Y\<close>.
\<close>

type_synonym byte = "8 word"

datatype color = RGBA (red: byte) (green: byte) (blue: byte) (alpha: byte)

record Rectangle =
  MinX :: int
  MinY :: int
  MaxX :: int
  MaxY :: int

record image_RGBA =
  Pix :: "color list"
  Stride :: int
  Rect :: Rectangle

text \<open>\<open>image.Rect\<close> puts the coordinates in order.\<close>

definition image_Rect :: "int \<Rightarrow> int \<Rightarrow> int \<Rightarrow> int \<Rightarrow> Rectangle" where
  "image_Rect x0 y0 x1 y1 =
     \<lparr>MinX = (if x0 > x1 then x1 else x0), MinY = (if y0 > y1 then y1 else y0),
      MaxX = (if x0 > x1 then x0 else x1), MaxY = (if y0 > y1 then y0 else y1)\<rparr>"

definition Dx :: "Rectangle \<Rightarrow> int" where
  "Dx r = MaxX r - MinX r"

definition Dy :: "Rectangle \<Rightarrow> int" where
  "Dy r = MaxY r - MinY r"

text \<open>\<open>Point{x, y}.In(r)\<close>.\<close>

definition In :: "int \<Rightarrow> int \<Rightarrow> Rectangle \<Rightarrow> bool" where
  "In x y r = (MinX r \<le> x \<and> x < MaxX r \<and> MinY r \<le> y \<and> y < MaxY r)"

text \<open>
  \<open>image.NewRGBA\<close> panics when the number of bytes of the pixels, four times the width
  times the height, does not fit an \<open>int\<close>, and its \<open>make\<close> panics when they are more
  than \<open>maxAlloc\<close>. The pixels are kept as colours, four bytes each. \<open>render\<close>,
  which allocates an image of the configured size, panics with it; \<open>enlargedImage\<close>
  is modelled for images within these limits.
\<close>

definition NewRGBA_panics :: "Rectangle \<Rightarrow> panic option" where
  "NewRGBA_panics r =
     (if Dx r < 0 \<or> Dy r < 0 \<or> 2 ^ 64 \<le> 4 * Dx r \<or> 2 ^ 63 \<le> 4 * Dx r * Dy r
      then Some HugeOrNegativeDimensions
      else if makeslice_panics 1 (4 * Dx r * Dy r) then Some MakeSliceLenOutOfRange
      else None)"

definition NewRGBA :: "Rectangle \<Rightarrow> image_RGBA" where
  "NewRGBA r = \<lparr>Pix = replicate (nat (Dx r * Dy r)) (RGBA 0 0 0 0), Stride = Dx r, Rect = r\<rparr>"

definition PixOffset :: "image_RGBA \<Rightarrow> int \<Rightarrow> int \<Rightarrow> int" where
  "PixOffset p x y = (y - MinY (Rect p)) * Stride p + (x - MinX (Rect p))"

text \<open>
  \<open>SetRGBA\<close> and \<open>RGBAAt\<close>; \<open>Set\<close> and \<open>At\<close> are the same functions when the colour
  is a \<open>color.RGBA\<close>, as it is in this program. A point outside the rectangle is
  not written, and reads as the zero colour.
\<close>

definition SetRGBA :: "image_RGBA \<Rightarrow> int \<Rightarrow> int \<Rightarrow> color \<Rightarrow> image_RGBA" where
  "SetRGBA p x y c =
     (if \<not> In x y (Rect p) then p
      else p\<lparr>Pix := (Pix p)[nat (PixOffset p x y) := c]\<rparr>)"

definition RGBAAt :: "image_RGBA \<Rightarrow> int \<Rightarrow> int \<Rightarrow> color" where
  "RGBAAt p x y =
     (if \<not> In x y (Rect p) then RGBA 0 0 0 0
      else Pix p ! nat (PixOffset p x y))"

text \<open>
  The images live in a store, a list indexed by address: \<open>image.NewRGBA\<close> returns the
  address of a fresh image, and a method with a pointer receiver writes through it.
\<close>

type_synonym store = "image_RGBA list"

definition new_RGBA :: "store \<Rightarrow> Rectangle \<Rightarrow> addr \<times> store" where
  "new_RGBA h r = (length h, h @ [NewRGBA r])"

definition ptr_Set :: "store \<Rightarrow> addr \<Rightarrow> int \<Rightarrow> int \<Rightarrow> color \<Rightarrow> store" where
  "ptr_Set h p x y c = h[p := SetRGBA (h ! p) x y c]"

definition ptr_At :: "store \<Rightarrow> addr \<Rightarrow> int \<Rightarrow> int \<Rightarrow> color" where
  "ptr_At h p x y = RGBAAt (h ! p) x y"

definition ptr_Bounds :: "store \<Rightarrow> addr \<Rightarrow> Rectangle" where
  "ptr_Bounds h p = Rect (h ! p)"

subsection \<open>render\<close>

text \<open>
  What \<open>render\<close> takes from outside: \<open>fmt.Sprintf("%.*f", prec, v)\<close> and the
  \<open>Draw\<close> method of \<open>smallfont.Context\<close>, which draws on the destination image and
  may return an error.
\<close>

record render_env =
  sprintf_f :: "nat \<Rightarrow> float64 \<Rightarrow> string"
  smallfont_Draw :: "image_RGBA \<Rightarrow> string \<Rightarrow> int \<Rightarrow> int \<Rightarrow> error option \<times> image_RGBA"

definition math_Floor :: "float64 \<Rightarrow> float64" where
  "math_Floor v = (case v of Finite a \<Rightarrow> Finite (of_int \<lfloor>a\<rfloor>) | _ \<Rightarrow> v)"

text \<open>
  The conversion \<open>int(v)\<close> truncates a finite value towards zero; Go leaves the result
  for an infinity or NaN to the implementation (the smallest \<open>int64\<close> on amd64).
\<close>

definition int_of_float64 :: "float64 \<Rightarrow> int" where
  "int_of_float64 v =
     (case v of Finite a \<Rightarrow> (if 0 \<le> a then \<lfloor>a\<rfloor> else \<lceil>a\<rceil>) | _ \<Rightarrow> - (2 ^ 63))"

text \<open>
  The first part of \<open>render\<close>: the three trend glyphs (byte 24 is the up arrow of the
  font, byte 25 the down arrow) and the two lines of text, stored in a fresh
  \<open>screen\<close> of \<open>floor(Height / 8)\<close> slots, each slot a slice header of 24 bytes.
  \<open>make\<close> panics on a negative length and on one beyond the limit of the runtime, and
  an assignment to a slot beyond the length panics. A height that \<open>float64\<close> would
  round is far beyond the limit of \<open>make\<close>, so the conversion is kept exact.
\<close>

definition render_screen :: "render_env \<Rightarrow> Display \<Rightarrow> Display outcome" where
  "render_screen env d =
     (let tempChange =
            (let chg = fsub (Temperature d) (LastHourTemperature d) in
             if flt chg (Finite (- 0.5)) then CHR 0x19
             else if fgt chg (Finite 0.5) then CHR 0x18 else CHR '' '');
          humChange =
            (let chg = fsub (RelativeHumidity d) (LastHourRelativeHumidity d) in
             if flt chg (Finite (- 0.5)) then CHR 0x19
             else if fgt chg (Finite 0.5) then CHR 0x18 else CHR '' '');
          outdoorTempChange =
            (let chg = fsub (OutdoorTemperature d) (LastHourOutdoorTemperature d) in
             if flt chg (Finite (- 1)) then CHR 0x19
             else if fgt chg (Finite 1) then CHR 0x18 else CHR '' '');
          n = int_of_float64 (math_Floor
                (fdiv (float64_of_int (Height (outputConfig d))) (Finite 8.0)))
      in if makeslice_panics 24 n then Panicked MakeSliceLenOutOfRange
         else
           let screen0 = replicate (nat n) [];
               line0 = sprintf_f env 1 (Temperature d) @ [tempChange]
                       @ '' '' @ sprintf_f env 0 (RelativeHumidity d) @ [humChange];
               line1 = sprintf_f env 1 (OutdoorTemperature d) @ [outdoorTempChange]
           in if \<not> 0 < length screen0 then Panicked (IndexOutOfRange 0 n)
              else if \<not> 1 < length (screen0[0 := line0]) then Panicked (IndexOutOfRange 1 n)
              else Return (d\<lparr>screen := screen0[0 := line0, 1 := line1]\<rparr>))"

text \<open>The two loops that fill the new image with opaque black.\<close>

function fill_x :: "store \<Rightarrow> addr \<Rightarrow> Rectangle \<Rightarrow> int \<Rightarrow> int \<Rightarrow> store" where
  "fill_x h img bounds y x =
     (if x < MaxX bounds then fill_x (ptr_Set h img x y (RGBA 0 0 0 255)) img bounds y (x + 1)
      else h)"
  by pat_completeness auto
termination
  by (relation "measure (\<lambda>(h, img, bounds, y, x). nat (MaxX bounds - x))") auto

declare fill_x.simps [simp del]

function fill_y :: "store \<Rightarrow> addr \<Rightarrow> Rectangle \<Rightarrow> int \<Rightarrow> store" where
  "fill_y h img bounds y =
     (if y < MaxY bounds then fill_y (fill_x h img bounds y (MinX bounds)) img bounds (y + 1)
      else h)"
  by pat_completeness auto
termination
  by (relation "measure (\<lambda>(h, img, bounds, y). nat (MaxY bounds - y))") auto

declare fill_y.simps [simp del]

text \<open>
  The loop that draws one line of text per band of eight rows, from row \<open>i\<close> on.
  \<open>i\<close> is never negative, so \<open>i / 8\<close> is \<open>i div 8\<close>.
\<close>

function draw_lines ::
  "render_env \<Rightarrow> store \<Rightarrow> addr \<Rightarrow> string list \<Rightarrow> int \<Rightarrow> int \<Rightarrow> (error option \<times> store) outcome" where
  "draw_lines env h img scr height i =
     (if i < height then
        (let line = i div 8 in
         if \<not> (0 \<le> line \<and> line < int (length scr))
         then Panicked (IndexOutOfRange line (int (length scr)))
         else
           case smallfont_Draw env (h ! img) (scr ! nat line) 0 i of
             (Some err, drawn) \<Rightarrow>
               Return (Some (''draw line '' @ show_int line @ '': '' @ err), h[img := drawn])
           | (None, drawn) \<Rightarrow> draw_lines env (h[img := drawn]) img scr height (i + 8))
      else Return (None, h))"
  by pat_completeness auto
termination
  by (relation "measure (\<lambda>(env, h, img, scr, height, i). nat (height - i))") auto

declare draw_lines.simps [simp del]

text \<open>
  \<open>render\<close> replaces \<open>screen\<close>, draws on a new image and publishes it in \<open>image\<close>
  when every line was drawn. It returns its error, the display and the store.
\<close>

definition render ::
  "render_env \<Rightarrow> Display \<Rightarrow> store \<Rightarrow> (error option \<times> Display \<times> store) outcome" where
  "render env d h =
     (case render_screen env d of
        Panicked p \<Rightarrow> Panicked p
      | Return d1 \<Rightarrow>
          let bounds = image_Rect 0 0 (Width (outputConfig d)) (Height (outputConfig d))
          in case NewRGBA_panics bounds of
               Some p \<Rightarrow> Panicked p
             | None \<Rightarrow>
                 let (img, h1) = new_RGBA h bounds;
                     h2 = fill_y h1 img bounds (MinY bounds)
                 in case draw_lines env h2 img (screen d1) (Height (outputConfig d)) 0 of
                      Panicked p \<Rightarrow> Panicked p
                    | Return (Some err, h3) \<Rightarrow> Return (Some err, d1, h3)
                    | Return (None, h3) \<Rightarrow> Return (None, d1\<lparr>image := Some img\<rparr>, h3))"

subsection \<open>enlargedImage\<close>

text \<open>
  The four loops of \<open>enlargedImage\<close>, innermost first. The two inner loops write the
  block of the pixel \<open>(x, y)\<close> through the pointer \<open>img\<close>; the two outer loops read
  the bounds and the pixels of the source through the pointer \<open>src\<close>.
\<close>

function enlarge_j ::
  "store \<Rightarrow> addr \<Rightarrow> int \<Rightarrow> int \<Rightarrow> int \<Rightarrow> int \<Rightarrow> color \<Rightarrow> int \<Rightarrow> int \<Rightarrow> store" where
  "enlarge_j h img enlarge space x y val i j =
     (if j < enlarge - space then
        enlarge_j (ptr_Set h img (x * enlarge + i) (y * enlarge + j) val)
          img enlarge space x y val i (j + 1)
      else h)"
  by pat_completeness auto
termination
  by (relation "measure (\<lambda>(h, img, enlarge, space, x, y, val, i, j). nat (enlarge - space - j))")
    auto

declare enlarge_j.simps [simp del]

function enlarge_i ::
  "store \<Rightarrow> addr \<Rightarrow> int \<Rightarrow> int \<Rightarrow> int \<Rightarrow> int \<Rightarrow> color \<Rightarrow> int \<Rightarrow> store" where
  "enlarge_i h img enlarge space x y val i =
     (if i < enlarge - space then
        enlarge_i (enlarge_j h img enlarge space x y val i space)
          img enlarge space x y val (i + 1)
      else h)"
  by pat_completeness auto
termination
  by (relation "measure (\<lambda>(h, img, enlarge, space, x, y, val, i). nat (enlarge - space - i))")
    auto

declare enlarge_i.simps [simp del]

text \<open>No write through a pointer changes the bounds of an image.\<close>

lemma ptr_Bounds_ptr_Set: "ptr_Bounds (ptr_Set h p x y c) q = ptr_Bounds h q"
  by (cases "p < length h")
    (auto simp: ptr_Bounds_def ptr_Set_def SetRGBA_def nth_list_update list_update_beyond)

lemma ptr_Bounds_enlarge_j:
  "ptr_Bounds (enlarge_j h img enlarge space x y val i j) q = ptr_Bounds h q"
proof (induction h img enlarge space x y val i j rule: enlarge_j.induct)
  case (1 h img enlarge space x y val i j)
  then show ?case
    by (simp add: enlarge_j.simps [of h img enlarge space x y val i j] ptr_Bounds_ptr_Set)
qed

lemma ptr_Bounds_enlarge_i:
  "ptr_Bounds (enlarge_i h img enlarge space x y val i) q = ptr_Bounds h q"
proof (induction h img enlarge space x y val i rule: enlarge_i.induct)
  case (1 h img enlarge space x y val i)
  then show ?case
    by (simp add: enlarge_i.simps [of h img enlarge space x y val i] ptr_Bounds_enlarge_j)
qed

function enlarge_y ::
  "store \<Rightarrow> addr \<Rightarrow> addr \<Rightarrow> int \<Rightarrow> int \<Rightarrow> int \<Rightarrow> int \<Rightarrow> store" where
  "enlarge_y h src img enlarge space x y =
     (if y < Dy (ptr_Bounds h src) then
        (let val = ptr_At h src x y in
         enlarge_y (enlarge_i h img enlarge space x y val space)
           src img enlarge space x (y + 1))
      else h)"
  by pat_completeness auto
termination
  by (relation "measure (\<lambda>(h, src, img, enlarge, space, x, y). nat (Dy (ptr_Bounds h src) - y))")
    (auto simp: ptr_Bounds_enlarge_i)

declare enlarge_y.simps [simp del]

lemma ptr_Bounds_enlarge_y:
  "ptr_Bounds (enlarge_y h src img enlarge space x y) q = ptr_Bounds h q"
proof (induction h src img enlarge space x y rule: enlarge_y.induct)
  case (1 h src img enlarge space x y)
  then show ?case
    by (simp add: enlarge_y.simps [of h src img enlarge space x y] ptr_Bounds_enlarge_i Let_def)
qed

function enlarge_x ::
  "store \<Rightarrow> addr \<Rightarrow> addr \<Rightarrow> int \<Rightarrow> int \<Rightarrow> int \<Rightarrow> store" where
  "enlarge_x h src img enlarge space x =
     (if x < Dx (ptr_Bounds h src) then
        enlarge_x (enlarge_y h src img enlarge space x 0) src img enlarge space (x + 1)
      else h)"
  by pat_completeness auto
termination
  by (relation "measure (\<lambda>(h, src, img, enlarge, space, x). nat (Dx (ptr_Bounds h src) - x))")
    (auto simp: ptr_Bounds_enlarge_y)

declare enlarge_x.simps [simp del]

text \<open>
  \<open>enlargedImage\<close> returns the pointer to the enlarged image. A \<open>nil\<close> image of the
  display is replaced by a new image of one pixel.
\<close>

definition enlargedImage :: "Display \<Rightarrow> store \<Rightarrow> int \<Rightarrow> int \<Rightarrow> addr \<times> store" where
  "enlargedImage d h enlarge space =
     (let (src, h1) = (case image d of
                         None \<Rightarrow> new_RGBA h (image_Rect 0 0 1 1)
                       | Some p \<Rightarrow> (p, h));
          (img, h2) = new_RGBA h1 (image_Rect 0 0 (enlarge * Dx (ptr_Bounds h1 src))
                                                 (enlarge * Dy (ptr_Bounds h1 src)))
      in (img, enlarge_x h2 src img enlarge space 0))"

subsection \<open>The handlers ServeLargePNG and ServeImage\<close>

text \<open>
  A handler returns the response it wrote and the entries it logged. The PNG and BMP
  encoders belong to the environment: an encoder returns the bytes it wrote and its
  error.
\<close>

record http_response =
  StatusCode :: nat
  Header :: "(string \<times> string) list"
  Body :: string

type_synonym log_entry = "string \<times> error"

record encoder_env =
  png_Encode :: "image_RGBA \<Rightarrow> string \<times> error option"
  bmp_Encode :: "image_RGBA \<Rightarrow> string \<times> error option"


definition ServeLargePNG ::
  "encoder_env \<Rightarrow> Display \<Rightarrow> store \<Rightarrow> http_response \<times> log_entry list \<times> store" where
  "ServeLargePNG env d h =
     (let (img, h') = enlargedImage d h 16 2;
          (written, err) = png_Encode env (h' ! img)
      in (\<lparr>StatusCode = 200, Header = [(''Content-Type'', ''image/png'')], Body = written\<rparr>,
          (case err of None \<Rightarrow> [] | Some e \<Rightarrow> [(''problem encoding png'', e)]),
          h'))"











subsection \<open>Invariants of the store\<close>

text \<open>
  The pixel slice of a well-formed image has one entry per point of its rectangle.
  \<open>frame h h' img\<close> says that from \<open>h\<close> to \<open>h'\<close> only the pixels of the image
  at \<open>img\<close> may have changed.
\<close>

definition wf_image :: "image_RGBA \<Rightarrow> bool" where
  "wf_image p = (length (Pix p) = nat (Dx (Rect p) * Dy (Rect p)) \<and> Stride p = Dx (Rect p))"

definition frame :: "store \<Rightarrow> store \<Rightarrow> addr \<Rightarrow> bool" where
  "frame h h' img =
     (length h' = length h \<and> (\<forall>q. q \<noteq> img \<longrightarrow> h' ! q = h ! q)
      \<and> Rect (h' ! img) = Rect (h ! img)
      \<and> (wf_image (h ! img) \<longrightarrow> wf_image (h' ! img)))"

subsection \<open>The trend glyph in the words of the specification\<close>

text \<open>
  The absolute value and the comparison \<open>a <= b\<close> of \<open>float64\<close>, which the program
  does not use, and the rule of the specification, read for the \<open>float64\<close> difference
  \<open>current - trailingMean\<close>: a glyph is flat (a space) when the absolute value of the
  difference is at most the threshold, rising (byte 24) when the difference is above the
  threshold, falling (byte 25) when it is below the negated threshold.
\<close>

definition fabs :: "float64 \<Rightarrow> float64" where
  "fabs v = (case v of Finite a \<Rightarrow> Finite \<bar>a\<bar> | NegInf \<Rightarrow> PosInf | _ \<Rightarrow> v)"

definition fle :: "float64 \<Rightarrow> float64 \<Rightarrow> bool" where
  "fle a b = (flt a b \<or> (a = b \<and> a \<noteq> NaN))"

definition trend_glyph_spec :: "real \<Rightarrow> float64 \<Rightarrow> float64 \<Rightarrow> char \<Rightarrow> bool" where
  "trend_glyph_spec threshold current trailingMean glyph =
     (let chg = fsub current trailingMean in
        (fle (fabs chg) (Finite threshold) \<longrightarrow> glyph = CHR '' '') \<and>
        (fgt chg (Finite threshold) \<longrightarrow> glyph = CHR 0x18) \<and>
        (flt chg (Finite (- threshold)) \<longrightarrow> glyph = CHR 0x19))"

section \<open>Example inputs\<close>

text \<open>
  A display at start-up, and a weather station that answers with three readings taken
  five minutes apart, at 02:30, 02:35 and 02:40 on 19 September 2021, the second of them
  reported as zero. The clock stands at 02:45.
\<close>

definition initialDisplay :: Display where
  "initialDisplay =
     \<lparr>outputConfig = \<lparr>Width = 64, Height = 32\<rparr>,
      Temperature = Finite 0, LastHourTemperature = Finite 0,
      RelativeHumidity = Finite 0, LastHourRelativeHumidity = Finite 0,
      OutdoorTemperature = Finite 0, LastHourOutdoorTemperature = Finite 0,
      MesonetLastData = zeroTime, image = None, screen = []\<rparr>"

definition brooklyn :: Result where
  "brooklyn =
     \<lparr>Response =
        \<lparr>Coords = [''time'' \<mapsto> zeroDataVar
            \<lparr>TimeData := [63767615400 * Second, 63767615700 * Second, 63767616000 * Second]\<rparr>],
         DataVars = [''tair'' \<mapsto> zeroDataVar
            \<lparr>FloatData := [Finite (784 / 10), Finite 0, Finite (688 / 10)]\<rparr>]\<rparr>,
      Success = True\<rparr>"

definition stationEnv :: mesonet_env where
  "stationEnv =
     \<lparr>clock_since = 63767616300 * Second, clock_now = 63767616300 * Second,
      mesonet_Do = (\<lambda>req. Inr brooklyn),
      sharp_v = (\<lambda>m. ''map[string]mesonet.DataVar{}'')\<rparr>"

text \<open>
  Two other answers of the station: one whose fourth reading is not in yet, reported as
  zero and without a timestamp, and one with a single reading and no time coordinate.
\<close>

definition lateStation :: Result where
  "lateStation =
     \<lparr>Response =
        \<lparr>Coords = [''time'' \<mapsto> zeroDataVar
            \<lparr>TimeData := [63767615400 * Second, 63767615700 * Second, 63767616000 * Second]\<rparr>],
         DataVars = [''tair'' \<mapsto> zeroDataVar
            \<lparr>FloatData := [Finite (784 / 10), Finite 0, Finite (688 / 10), Finite 0]\<rparr>]\<rparr>,
      Success = True\<rparr>"

definition lateEnv :: mesonet_env where
  "lateEnv = stationEnv\<lparr>mesonet_Do := (\<lambda>req. Inr lateStation)\<rparr>"

definition bareStation :: Result where
  "bareStation =
     \<lparr>Response =
        \<lparr>Coords = Map.empty,
         DataVars = [''tair'' \<mapsto> zeroDataVar\<lparr>FloatData := [Finite (688 / 10)]\<rparr>]\<rparr>,
      Success = True\<rparr>"

definition bareEnv :: mesonet_env where
  "bareEnv = stationEnv\<lparr>mesonet_Do := (\<lambda>req. Inr bareStation)\<rparr>"

text \<open>A display whose last weather-station reading is five minutes old.\<close>

definition freshDisplay :: Display where
  "freshDisplay = initialDisplay\<lparr>OutdoorTemperature := Finite 70,
     LastHourOutdoorTemperature := Finite 71, MesonetLastData := 63767616000 * Second\<rparr>"

text \<open>
  The display of the handler test: 64 by 32 pixels, indoor temperature 69 after a mean of
  65, humidity 42 after 50, outdoor temperature 90 after 90. Its environment prints these
  three values as \<open>fmt\<close> does and draws every line without an error.
\<close>

definition testEnv :: render_env where
  "testEnv =
     \<lparr>sprintf_f = (\<lambda>prec v. if v = Finite 69 then ''69.0''
                            else if v = Finite 42 then ''42'' else ''90.0''),
      smallfont_Draw = (\<lambda>p text x y. (None, p))\<rparr>"

definition testDisplay :: Display where
  "testDisplay = initialDisplay\<lparr>Temperature := Finite 69, LastHourTemperature := Finite 65,
     RelativeHumidity := Finite 42, LastHourRelativeHumidity := Finite 50,
     OutdoorTemperature := Finite 90, LastHourOutdoorTemperature := Finite 90\<rparr>"

text \<open>
  A display whose indoor temperature is 1 after a mean of \<open>0.5 - 2^-54\<close>, both of them
  \<open>float64\<close> numbers, with an environment that prints 1 as \<open>fmt\<close> does.
\<close>

definition thresholdDisplay :: Display where
  "thresholdDisplay = testDisplay\<lparr>Temperature := Finite 1,
     LastHourTemperature := Finite (1 / 2 - 1 / 2 ^ 54)\<rparr>"

definition thresholdEnv :: render_env where
  "thresholdEnv =
     \<lparr>sprintf_f = (\<lambda>prec v. if v = Finite 1 then ''1.0''
                            else if v = Finite 42 then ''42'' else ''90.0''),
      smallfont_Draw = (\<lambda>p text x y. (None, p))\<rparr>"

text \<open>The same display configured with another height.\<close>

definition withHeight :: "int \<Rightarrow> Display" where
  "withHeight H = testDisplay\<lparr>outputConfig := \<lparr>Width = 64, Height = H\<rparr>\<rparr>"

text \<open>An image of one white pixel, and encoders that write a tag and the size.\<close>

definition whitePixel :: image_RGBA where
  "whitePixel = \<lparr>Pix = [RGBA 255 255 255 255], Stride = 1, Rect = image_Rect 0 0 1 1\<rparr>"

definition testEncoders :: encoder_env where
  "testEncoders =
     \<lparr>png_Encode = (\<lambda>m. (''PNG '' @ show_int (Dx (Rect m)) @ ''x'' @ show_int (Dy (Rect m)), None)),
      bmp_Encode = (\<lambda>m. (''BM '' @ show_int (Dx (Rect m)) @ ''x'' @ show_int (Dy (Rect m)), None))\<rparr>"







text \<open>
  A home whose InfluxDB refuses the query of the current temperature and answers the
  three other queries, with the weather station above. In the schedule, the first
  goroutine fails and both of its messages are received, then three more jobs finish
  and are received: five receives, with the weather-station job still running.
\<close>

definition homeEnv :: update_env where
  "homeEnv =
     \<lparr>influx_Query = (\<lambda>q. case q of
          TemperatureLast \<Rightarrow> QueryError ''connection refused''
        | TemperatureMean \<Rightarrow> Row (FloatValue (Finite 65))
        | HumidityLast \<Rightarrow> Row (FloatValue (Finite 42))
        | HumidityMean \<Rightarrow> Row (FloatValue (Finite 50))),
      mesonet = stationEnv,
      ctx_Err = ''context deadline exceeded''\<rparr>"

definition stragglerSchedule :: "event list" where
  "stragglerSchedule =
     [Finish 0, Receive 0, Receive 0, Finish 1, Receive 1, Finish 2, Receive 2,
      Finish 3, Receive 3]"

definition stragglerDisplay :: Display where
  "stragglerDisplay = initialDisplay\<lparr>LastHourTemperature := Finite 65,
     RelativeHumidity := Finite 42, LastHourRelativeHumidity := Finite 50\<rparr>"

section \<open>The weather-station job\<close>

text \<open>
  The loop returns when the time coordinate has an entry at the index of every non-zero
  entry of the series; it then holds the sum and the last of the non-zero entries.
\<close>

lemma tair_loop_result:
  "(\<forall>j < length ts. fne (ts ! j) (Finite 0) \<longrightarrow> i + j < length td) \<Longrightarrow>
   \<exists>lu. tair_loop td i ts (n, sum1, last1, lastUpdate) =
     Return (n, foldl fadd sum1 (filter (\<lambda>t. fne t (Finite 0)) ts),
       (if filter (\<lambda>t. fne t (Finite 0)) ts = [] then last1
        else last (filter (\<lambda>t. fne t (Finite 0)) ts)), lu)"
proof (induction ts arbitrary: i sum1 last1 lastUpdate)
  case Nil
  then show ?case by simp
next
  case (Cons t ts)
  from Cons.prems have rest:
    "\<forall>j < length ts. fne (ts ! j) (Finite 0) \<longrightarrow> Suc i + j < length td"
    by fastforce
  from Cons.prems have first: "fne t (Finite 0) \<longrightarrow> i < length td"
    by fastforce
  from Cons.IH [OF rest] first show ?case by (auto simp: Let_def)
qed

lemma filter_nonempty: "\<exists>t \<in> set ts. P t \<Longrightarrow> filter P ts \<noteq> []"
  by (simp add: filter_empty_conv)

text \<open>
  C4. While the stored timestamp of the last data point is less than six minutes old,
  the weather-station job returns \<open>nil\<close>, sends no request and leaves every field of
  the display as it was.
\<close>

theorem updateOutdoorTemperature_rate_limit:
  "Since env (MesonetLastData d) < 6 * Minute \<Longrightarrow>
   updateOutdoorTemperature env d = ([], Return (None, d))"
  by (simp add: updateOutdoorTemperature_def)

theorem updateOutdoorTemperature_rate_limit_witness:
  "Since stationEnv (MesonetLastData freshDisplay) < 6 * Minute \<and>
   updateOutdoorTemperature stationEnv freshDisplay = ([], Return (None, freshDisplay))"
proof -
  have fresh: "Since stationEnv (MesonetLastData freshDisplay) < 6 * Minute"
    by (simp add: Since_def Sub_def stationEnv_def freshDisplay_def Minute_def Second_def Hour_def
        minDuration_def maxDuration_def)
  from updateOutdoorTemperature_rate_limit [OF fresh] fresh show ?thesis by simp
qed

text \<open>
  C5, as stated, at the series \<open>[68.8]\<close>, which has a non-zero entry, in an answer
  without a time coordinate: the job panics at \<open>TimeData[0]\<close> and sets no field.
\<close>

theorem updateOutdoorTemperature_without_time:
  "FloatData (index_map (DataVars (Response bareStation)) ''tair'') = [Finite (688 / 10)]
   \<and> fne (Finite (688 / 10)) (Finite 0)
   \<and> updateOutdoorTemperature bareEnv initialDisplay =
       ([tair_request (63767616300 * Second)], Panicked (IndexOutOfRange 0 0))"
  by (simp add: updateOutdoorTemperature_def bareEnv_def stationEnv_def initialDisplay_def
      bareStation_def Since_def Sub_def zeroTime_def Hour_def Minute_def Second_def
      minDuration_def maxDuration_def index_map_def zeroDataVar_def fne_def Let_def)

text \<open>
  C5, amended. When the job is not rate limited and the station answers with a series
  \<open>tair\<close> that has a non-zero entry, and the time coordinate has an entry at the index
  of every non-zero entry of the series, the job returns \<open>nil\<close> and
  \<open>OutdoorTemperature\<close> is the last non-zero entry of the series: zeros after it are
  skipped.
\<close>

theorem updateOutdoorTemperature_latest:
  assumes "\<not> Since env (MesonetLastData d) < 6 * Minute"
    and "mesonet_Do env (tair_request (clock_now env)) = Inr res"
    and "tair = FloatData (index_map (DataVars (Response res)) ''tair'')"
    and "\<exists>t \<in> set tair. fne t (Finite 0)"
    and "\<forall>i < length tair. fne (tair ! i) (Finite 0) \<longrightarrow>
           i < length (TimeData (index_map (Coords (Response res)) ''time''))"
  shows "\<exists>d'. updateOutdoorTemperature env d = ([tair_request (clock_now env)], Return (None, d'))
           \<and> OutdoorTemperature d' = last (filter (\<lambda>t. fne t (Finite 0)) tair)"
proof -
  let ?td = "TimeData (index_map (Coords (Response res)) ''time'')"
  from assms(4) have ne: "filter (\<lambda>t. fne t (Finite 0)) tair \<noteq> []"
    by (rule filter_nonempty)
  then have len: "length tair \<noteq> 0" by auto
  from assms(5) have
    "\<forall>j < length tair. fne (tair ! j) (Finite 0) \<longrightarrow> 0 + j < length ?td" by simp
  from tair_loop_result [OF this, of 0 "Finite 0" "Finite 0" zeroTime] ne
  obtain lu where
    "tair_loop ?td 0 tair (0, Finite 0, Finite 0, zeroTime) =
       Return (0, foldl fadd (Finite 0) (filter (\<lambda>t. fne t (Finite 0)) tair),
         last (filter (\<lambda>t. fne t (Finite 0)) tair), lu)"
    by auto
  with assms(1,2) len assms(3) show ?thesis
    by (simp add: updateOutdoorTemperature_def Let_def)
qed

theorem updateOutdoorTemperature_latest_witness:
  "(\<exists>d'. updateOutdoorTemperature lateEnv initialDisplay =
            ([tair_request (63767616300 * Second)], Return (None, d'))
      \<and> OutdoorTemperature d' = Finite (688 / 10))
   \<and> FloatData (index_map (DataVars (Response lateStation)) ''tair'')
       = [Finite (784 / 10), Finite 0, Finite (688 / 10), Finite 0]"
proof -
  let ?tair = "[Finite (784 / 10), Finite 0, Finite (688 / 10), Finite 0]"
  have 1: "\<not> Since lateEnv (MesonetLastData initialDisplay) < 6 * Minute"
    by (simp add: Since_def Sub_def lateEnv_def stationEnv_def initialDisplay_def Minute_def
        Second_def Hour_def minDuration_def maxDuration_def zeroTime_def)
  have 2: "mesonet_Do lateEnv (tair_request (clock_now lateEnv)) = Inr lateStation"
    by (simp add: lateEnv_def)
  have 3: "?tair = FloatData (index_map (DataVars (Response lateStation)) ''tair'')"
    by (simp add: lateStation_def index_map_def zeroDataVar_def)
  have 4: "\<exists>t \<in> set ?tair. fne t (Finite 0)"
    by (simp add: fne_def)
  have 5: "\<forall>i < length ?tair. fne (?tair ! i) (Finite 0) \<longrightarrow>
             i < length (TimeData (index_map (Coords (Response lateStation)) ''time''))"
    by (simp add: lateStation_def index_map_def zeroDataVar_def fne_def less_Suc_eq
        numeral_nat)
  from updateOutdoorTemperature_latest [OF 1 2 3 4 5] 3 show ?thesis
    by (simp add: fne_def lateEnv_def stationEnv_def)
qed

text \<open>
  The counter \<open>n\<close> is still 0 after the loop, on every series: whenever the job
  reaches the loop and returns, the mean it stores is the sum divided by zero, an
  infinity or NaN.
\<close>

lemma fdiv_by_zero_not_finite: "fdiv s (Finite 0) \<noteq> Finite m"
  by (cases s) simp_all

lemma updateOutdoorTemperature_mean_by_zero:
  assumes "\<not> Since env (MesonetLastData d) < 6 * Minute"
    and "mesonet_Do env (tair_request (clock_now env)) = Inr res"
    and "tair = FloatData (index_map (DataVars (Response res)) ''tair'')"
    and "tair \<noteq> []"
    and "length tair \<le> length (TimeData (index_map (Coords (Response res)) ''time''))"
  shows "\<exists>d'. snd (updateOutdoorTemperature env d) = Return (None, d')
           \<and> LastHourOutdoorTemperature d' =
               fdiv (foldl fadd (Finite 0) (filter (\<lambda>t. fne t (Finite 0)) tair)) (Finite 0)
           \<and> (\<forall>m. LastHourOutdoorTemperature d' \<noteq> Finite m)"
proof -
  let ?td = "TimeData (index_map (Coords (Response res)) ''time'')"
  from assms(4) have len: "length tair \<noteq> 0" by simp
  from assms(5) have
    "\<forall>j < length tair. fne (tair ! j) (Finite 0) \<longrightarrow> 0 + j < length ?td" by simp
  from tair_loop_result [OF this, of 0 "Finite 0" "Finite 0" zeroTime]
  obtain l lu where
    "tair_loop ?td 0 tair (0, Finite 0, Finite 0, zeroTime) =
       Return (0, foldl fadd (Finite 0) (filter (\<lambda>t. fne t (Finite 0)) tair), l, lu)"
    by auto
  with assms(1,2) len assms(3) show ?thesis
    by (simp add: updateOutdoorTemperature_def Let_def float64_of_int_def fdiv_by_zero_not_finite)
qed

text \<open>
  C1. The trailing mean is the sum of the non-zero entries divided by the counter \<open>n\<close>,
  and the loop never increments \<open>n\<close>: the division is by zero. For the series
  \<open>[78.4, 0, 68.8]\<close> the mean of the non-zero entries is \<open>73.6\<close>, and the job stores
  \<open>+Inf\<close>.
\<close>

theorem updateOutdoorTemperature_mean_divides_by_zero:
  "snd (updateOutdoorTemperature stationEnv initialDisplay) =
     Return (None, initialDisplay\<lparr>OutdoorTemperature := Finite (688 / 10),
       LastHourOutdoorTemperature := PosInf,
       MesonetLastData := 63767616000 * Second\<rparr>)
   \<and> fdiv (foldl fadd (Finite 0) (filter (\<lambda>t. fne t (Finite 0))
              [Finite (784 / 10), Finite 0, Finite (688 / 10)]))
        (float64_of_int (int (length (filter (\<lambda>t. fne t (Finite 0))
              [Finite (784 / 10), Finite 0, Finite (688 / 10)])))) = Finite (736 / 10)"
  by (simp add: updateOutdoorTemperature_def stationEnv_def initialDisplay_def brooklyn_def
      Since_def Sub_def zeroTime_def Hour_def Minute_def Second_def minDuration_def maxDuration_def
      index_map_def zeroDataVar_def fne_def IsZero_def float64_of_int_def Let_def)

section \<open>render\<close>

subsection \<open>The number of screen lines\<close>

lemma band_in_range:
  fixes i height :: int
  assumes "8 dvd height" "8 dvd i" "0 \<le> i" "i < height"
  shows "0 \<le> i div 8 \<and> i div 8 < height div 8"
  using assms by (auto elim!: dvdE)

lemma slots2: "16 \<le> (H::int) \<Longrightarrow> 2 \<le> H div 8"
  using zdiv_mono1 [of 16 H 8] by simp

lemma slots_neg: "(H::int) < 0 \<Longrightarrow> H div 8 < 0"
  by (simp add: div_neg_pos_less0)

lemma slots0: "0 \<le> (H::int) \<Longrightarrow> H < 8 \<Longrightarrow> H div 8 = 0"
  by simp

lemma slots1: "8 \<le> (H::int) \<Longrightarrow> H < 16 \<Longrightarrow> H div 8 = 1"
proof -
  assume a: "8 \<le> H" "H < 16"
  have "H div 8 = (H - 8) div 8 + 1" by simp
  also from a have "(H - 8) div 8 = 0" by simp
  finally show ?thesis by simp
qed

lemma n_slots: "int_of_float64 (math_Floor (fdiv (float64_of_int H) (Finite 8))) = H div 8"
proof -
  have "\<lfloor>real_of_int H / 8\<rfloor> = H div 8"
    using floor_divide_of_int_eq [of H 8, where ?'a = real] by simp
  then show ?thesis
    by (simp add: float64_of_int_def math_Floor_def int_of_float64_def)
qed

lemma band_step:
  fixes i j :: int
  assumes "8 dvd i" "8 dvd j" "i \<le> j" "i \<noteq> j"
  shows "i + 8 \<le> j"
  using assms by presburger

lemma render_screen_cases:
  "render_screen env d =
     (if Height (outputConfig d) < 0 then Panicked MakeSliceLenOutOfRange
      else if Height (outputConfig d) < 8 then Panicked (IndexOutOfRange 0 0)
      else if Height (outputConfig d) < 16 then Panicked (IndexOutOfRange 1 1)
      else if makeslice_panics 24 (Height (outputConfig d) div 8)
        then Panicked MakeSliceLenOutOfRange
      else Return (d\<lparr>screen := (replicate (nat (Height (outputConfig d) div 8)) [])
         [0 := sprintf_f env 1 (Temperature d)
               @ [if flt (fsub (Temperature d) (LastHourTemperature d)) (Finite (- 0.5)) then CHR 0x19
                  else if fgt (fsub (Temperature d) (LastHourTemperature d)) (Finite 0.5) then CHR 0x18 else CHR '' '']
               @ '' '' @ sprintf_f env 0 (RelativeHumidity d)
               @ [if flt (fsub (RelativeHumidity d) (LastHourRelativeHumidity d)) (Finite (- 0.5)) then CHR 0x19
                  else if fgt (fsub (RelativeHumidity d) (LastHourRelativeHumidity d)) (Finite 0.5) then CHR 0x18 else CHR '' ''],
          1 := sprintf_f env 1 (OutdoorTemperature d)
               @ [if flt (fsub (OutdoorTemperature d) (LastHourOutdoorTemperature d)) (Finite (- 1)) then CHR 0x19
                  else if fgt (fsub (OutdoorTemperature d) (LastHourOutdoorTemperature d)) (Finite 1) then CHR 0x18 else CHR '' '']]\<rparr>))"
proof -
  let ?H = "Height (outputConfig d)"
  consider "?H < 0" | "0 \<le> ?H" "?H < 8" | "8 \<le> ?H" "?H < 16" | "16 \<le> ?H" by linarith
  then show ?thesis
  proof cases
    case 1
    then have "?H div 8 < 0" by (rule slots_neg)
    with 1 show ?thesis by (simp add: render_screen_def n_slots Let_def makeslice_panics_def)
  next
    case 2
    then have "?H div 8 = 0" by (rule slots0)
    with 2 show ?thesis
      by (simp add: render_screen_def n_slots Let_def makeslice_panics_def maxAlloc_def)
  next
    case 3
    then have "?H div 8 = 1" by (rule slots1)
    with 3 show ?thesis
      by (simp add: render_screen_def n_slots Let_def makeslice_panics_def maxAlloc_def)
  next
    case 4
    then have "2 \<le> ?H div 8" by (rule slots2)
    then have "\<not> ?H div 8 < 0" "0 < nat (?H div 8)" "1 < nat (?H div 8)" by auto
    with 4 show ?thesis by (simp add: render_screen_def n_slots Let_def)
  qed
qed

text \<open>
  The draw loop returns \<open>nil\<close> when the height is a multiple of 8, the screen has a slot
  for every band and every line is drawn without an error.
\<close>

lemma draw_lines_returns:
  "8 dvd height \<Longrightarrow> 8 dvd i \<Longrightarrow> 0 \<le> i \<Longrightarrow> int (length scr) = height div 8 \<Longrightarrow>
   (\<forall>p text x y. fst (smallfont_Draw env p text x y) = None) \<Longrightarrow>
   \<exists>h'. draw_lines env h img scr height i = Return (None, h')"
proof (induction env h img scr height i rule: draw_lines.induct)
  case (1 env h img scr height i)
  show ?case
  proof (cases "i < height")
    case False
    then show ?thesis by (simp add: draw_lines.simps [of env h img scr height i])
  next
    case True
    with "1.prems" have inr: "0 \<le> i div 8" "i div 8 < int (length scr)"
      using band_in_range [of height i] by simp_all
    obtain e drawn where dr: "smallfont_Draw env (h ! img) (scr ! nat (i div 8)) 0 i = (e, drawn)"
      by (cases "smallfont_Draw env (h ! img) (scr ! nat (i div 8)) 0 i")
    with "1.prems" have None: "e = None" by (metis fst_conv)
    have "\<exists>h'. draw_lines env (h[img := drawn]) img scr height (i + 8) = Return (None, h')"
    proof (rule "1.IH" [OF True refl _ dr [symmetric] None])
      show "\<not> \<not> (0 \<le> i div 8 \<and> i div 8 < int (length scr))" using inr by simp
      show "8 dvd height" "int (length scr) = height div 8"
        "\<forall>p text x y. fst (smallfont_Draw env p text x y) = None"
        using "1.prems" by simp_all
      show "8 dvd i + 8" "0 \<le> i + 8" using "1.prems" by simp_all
    qed
    then obtain h' where "draw_lines env (h[img := drawn]) img scr height (i + 8) = Return (None, h')"
      by auto
    with True inr dr None show ?thesis
      by (simp add: draw_lines.simps [of env h img scr height i])
  qed
qed

text \<open>
  The draw loop reads slot \<open>j / 8\<close> of the screen for every band \<open>j\<close> from \<open>i\<close> on: when
  it returns \<open>nil\<close>, each of these slots is within the screen.
\<close>

lemma draw_lines_reads_every_band:
  "draw_lines env h img scr height i = Return (None, h') \<Longrightarrow> 8 dvd i \<Longrightarrow>
   i \<le> j \<Longrightarrow> j < height \<Longrightarrow> 8 dvd j \<Longrightarrow> j div 8 < int (length scr)"
proof (induction env h img scr height i rule: draw_lines.induct)
  case (1 env h img scr height i)
  from "1.prems" have lt: "i < height" by simp
  have inr: "0 \<le> i div 8 \<and> i div 8 < int (length scr)"
  proof (rule ccontr)
    assume "\<not> (0 \<le> i div 8 \<and> i div 8 < int (length scr))"
    with lt "1.prems"(1) show False
      by (simp add: draw_lines.simps [of env h img scr height i] Let_def)
  qed
  obtain e drawn where dr: "smallfont_Draw env (h ! img) (scr ! nat (i div 8)) 0 i = (e, drawn)"
    by (cases "smallfont_Draw env (h ! img) (scr ! nat (i div 8)) 0 i")
  have None: "e = None"
  proof (cases e)
    case (Some err)
    with lt inr dr "1.prems"(1) show ?thesis
      by (simp add: draw_lines.simps [of env h img scr height i])
  qed simp
  from lt inr dr None "1.prems"(1)
  have next_band: "draw_lines env (h[img := drawn]) img scr height (i + 8) = Return (None, h')"
    by (simp add: draw_lines.simps [of env h img scr height i])
  show ?case
  proof (cases "i = j")
    case True
    with inr show ?thesis by simp
  next
    case False
    with "1.prems" have "i + 8 \<le> j" by (simp add: band_step)
    show ?thesis
    proof (rule "1.IH" [OF lt refl _ dr [symmetric] None next_band])
      show "\<not> \<not> (0 \<le> i div 8 \<and> i div 8 < int (length scr))" using inr by simp
      show "8 dvd i + 8" using "1.prems" by simp
      show "i + 8 \<le> j" by fact
      show "j < height" "8 dvd j" using "1.prems" by simp_all
    qed
  qed
qed

lemma render_screen_length:
  "render_screen env d = Return d1 \<Longrightarrow>
   int (length (screen d1)) = Height (outputConfig d) div 8 \<and> 16 \<le> Height (outputConfig d)"
  by (auto simp: render_screen_cases split: if_splits)

lemma render_returns:
  assumes "16 \<le> Height (outputConfig d)" and "8 dvd Height (outputConfig d)"
    and "\<not> makeslice_panics 24 (Height (outputConfig d) div 8)"
    and "NewRGBA_panics (image_Rect 0 0 (Width (outputConfig d)) (Height (outputConfig d))) = None"
    and "\<forall>p text x y. fst (smallfont_Draw env p text x y) = None"
  shows "\<exists>d' h'. render env d h = Return (None, d', h')"
proof -
  let ?H = "Height (outputConfig d)"
  from assms(1,3) obtain d1 where d1: "render_screen env d = Return d1"
    by (simp add: render_screen_cases)
  from render_screen_length [OF d1] have len: "int (length (screen d1)) = ?H div 8" by simp
  let ?bounds = "image_Rect 0 0 (Width (outputConfig d)) ?H"
  let ?h2 = "fill_y (h @ [NewRGBA ?bounds]) (length h) ?bounds (MinY ?bounds)"
  from draw_lines_returns [where i = 0 and height = ?H and scr = "screen d1"
      and env = env and h = ?h2 and img = "length h"] assms(2,5) len
  obtain h' where "draw_lines env ?h2 (length h) (screen d1) ?H 0 = Return (None, h')" by auto
  with d1 assms(4) show ?thesis
    by (simp add: render_def new_RGBA_def Let_def)
qed

lemma render_screen_kept:
  "render env d h = Return (e, d', h') \<Longrightarrow>
   \<exists>d1. render_screen env d = Return d1 \<and> screen d' = screen d1"
  by (auto simp: render_def new_RGBA_def Let_def split: outcome.splits option.splits prod.splits)

lemma render_draws:
  "render env d h = Return (None, d', h') \<Longrightarrow>
   \<exists>d1 h2 img. render_screen env d = Return d1 \<and> screen d' = screen d1
     \<and> draw_lines env h2 img (screen d1) (Height (outputConfig d)) 0 = Return (None, h')"
  by (auto simp: render_def new_RGBA_def Let_def split: outcome.splits option.splits prod.splits)

lemma render_panics_below_16:
  assumes "Height (outputConfig d) < 16"
  shows "render env d h =
     Panicked (if Height (outputConfig d) < 0 then MakeSliceLenOutOfRange
               else if Height (outputConfig d) < 8 then IndexOutOfRange 0 0
               else IndexOutOfRange 1 1)"
  using assms by (simp add: render_def render_screen_cases)

lemma render_returns_from_16:
  assumes "render env d h = Return r"
  shows "16 \<le> Height (outputConfig d)"
proof (rule ccontr)
  assume "\<not> 16 \<le> Height (outputConfig d)"
  then have "Height (outputConfig d) < 16" by simp
  from render_panics_below_16 [OF this, of env h] assms show False by simp
qed

lemma render_reads_every_band:
  assumes "render env d h = Return (None, d', h')"
    and "0 \<le> i" "i < Height (outputConfig d)" "8 dvd i"
  shows "i div 8 < int (length (screen d'))"
proof -
  from render_draws [OF assms(1)] obtain d1 h2 img where
    d1: "render_screen env d = Return d1" and
    scr: "screen d' = screen d1" and
    dl: "draw_lines env h2 img (screen d1) (Height (outputConfig d)) 0 = Return (None, h')"
    by blast
  from draw_lines_reads_every_band [OF dl _ assms(2,3,4)] scr show ?thesis by simp
qed

subsection \<open>Trend glyphs\<close>

text \<open>The differences of the example displays, as \<open>float64\<close> computes them.\<close>

lemma round64_4: "round64 4 = Finite 4"
  by (simp add: round64_def exponent_def exponent_up.simps pow2_def round_half_even_def Let_def)

lemma round64_minus_8: "round64 (- 8) = Finite (- 8)"
  by (simp add: round64_def exponent_def exponent_up.simps pow2_def round_half_even_def Let_def)

lemma round64_1: "round64 1 = Finite 1"
  by (simp add: round64_def exponent_def exponent_up.simps pow2_def round_half_even_def Let_def)

lemma round64_below_half: "round64 (1 / 2 - 1 / 2 ^ 54) = Finite (1 / 2 - 1 / 2 ^ 54)"
  by (simp add: round64_def exponent_def exponent_down.simps pow2_def round_half_even_def Let_def)

lemma round64_tie: "round64 (1 - (1 / 2 - 1 / 2 ^ 54)) = Finite (1 / 2)"
  by (simp add: round64_def exponent_def exponent_down.simps pow2_def round_half_even_def Let_def)

lemma testDisplay_within_limits:
  "\<not> makeslice_panics 24 4" "NewRGBA_panics (image_Rect 0 0 64 32) = None"
  by (simp_all add: makeslice_panics_def maxAlloc_def NewRGBA_panics_def image_Rect_def
      Dx_def Dy_def)

lemma glyph_meets_spec:
  "0 \<le> thr \<Longrightarrow>
   trend_glyph_spec thr cur mean
     (if flt (fsub cur mean) (Finite (- thr)) then CHR 0x19
      else if fgt (fsub cur mean) (Finite thr) then CHR 0x18 else CHR '' '')"
  by (cases "fsub cur mean") (auto simp: trend_glyph_spec_def fabs_def fle_def fgt_def)

text \<open>
  C3, as stated, at the indoor temperature 1 after a mean of \<open>0.5 - 2^-54\<close>. The two
  values are \<open>float64\<close> numbers and their difference is above the threshold 0.5, by
  \<open>2^-54\<close>; \<open>float64\<close> rounds the difference to 0.5, which is not above the threshold,
  and the glyph that \<open>render\<close> writes after the temperature is the space.
\<close>

theorem render_trend_at_rounded_difference:
  "Temperature thresholdDisplay = Finite 1
   \<and> LastHourTemperature thresholdDisplay = Finite (1 / 2 - 1 / 2 ^ 54)
   \<and> round64 1 = Finite 1
   \<and> round64 (1 / 2 - 1 / 2 ^ 54) = Finite (1 / 2 - 1 / 2 ^ 54)
   \<and> (1 / 2 :: real) < 1 - (1 / 2 - 1 / 2 ^ 54)
   \<and> (\<exists>e d' h'. render thresholdEnv thresholdDisplay [] = Return (e, d', h')
        \<and> screen d' ! 0 = ''1.0'' @ [CHR '' ''] @ '' 42'' @ [CHR 0x19])"
proof -
  have H: "Height (outputConfig thresholdDisplay) = 32" "Width (outputConfig thresholdDisplay) = 64"
    by (simp_all add: thresholdDisplay_def testDisplay_def initialDisplay_def)
  have "\<exists>d' h'. render thresholdEnv thresholdDisplay [] = Return (None, d', h')"
    by (rule render_returns) (simp_all add: H testDisplay_within_limits thresholdEnv_def)
  then obtain d' h' where r: "render thresholdEnv thresholdDisplay [] = Return (None, d', h')"
    by blast
  from render_screen_kept [OF r] obtain d1 where
    d1: "render_screen thresholdEnv thresholdDisplay = Return d1" and scr: "screen d' = screen d1"
    by blast
  have chg: "fsub (Temperature thresholdDisplay) (LastHourTemperature thresholdDisplay) = Finite (1 / 2)"
    "fsub (RelativeHumidity thresholdDisplay) (LastHourRelativeHumidity thresholdDisplay) = Finite (- 8)"
    using round64_tie round64_minus_8
    by (simp_all add: fsub_def thresholdDisplay_def testDisplay_def initialDisplay_def)
  have fields: "Temperature thresholdDisplay = Finite 1"
    "LastHourTemperature thresholdDisplay = Finite (1 / 2 - 1 / 2 ^ 54)"
    "RelativeHumidity thresholdDisplay = Finite 42"
    by (simp_all add: thresholdDisplay_def testDisplay_def initialDisplay_def)
  have prints: "\<And>prec. sprintf_f thresholdEnv prec (Finite 1) = ''1.0''"
    "\<And>prec. sprintf_f thresholdEnv prec (Finite 42) = ''42''"
    by (simp_all add: thresholdEnv_def)
  from d1 have "screen d1 ! 0 =
      sprintf_f thresholdEnv 1 (Temperature thresholdDisplay) @ [CHR '' '']
        @ '' '' @ sprintf_f thresholdEnv 0 (RelativeHumidity thresholdDisplay) @ [CHR 0x19]"
    by (auto simp add: render_screen_cases H chg testDisplay_within_limits fgt_def)
  then have "screen d1 ! 0 = ''1.0'' @ [CHR '' ''] @ '' 42'' @ [CHR 0x19]"
    by (simp add: fields prints)
  with r scr round64_1 round64_below_half fields show ?thesis
    by simp
qed

text \<open>
  C3, amended. When \<open>render\<close> returns, the first line of the screen is the indoor
  temperature, its glyph, the humidity and its glyph, the second line the outdoor
  temperature and its glyph, and each glyph follows the rule of the specification for
  the \<open>float64\<close> difference \<open>current - trailingMean\<close>, the difference rounded as the
  program computes it: threshold 0.5 for the indoor temperature and the humidity, 1 for
  the outdoor temperature.
\<close>

theorem render_trend_glyphs:
  assumes "render env d h = Return (e, d', h')"
  shows "\<exists>g1 g2 g3.
      screen d' ! 0 = sprintf_f env 1 (Temperature d) @ [g1]
                        @ '' '' @ sprintf_f env 0 (RelativeHumidity d) @ [g2]
    \<and> screen d' ! 1 = sprintf_f env 1 (OutdoorTemperature d) @ [g3]
    \<and> trend_glyph_spec 0.5 (Temperature d) (LastHourTemperature d) g1
    \<and> trend_glyph_spec 0.5 (RelativeHumidity d) (LastHourRelativeHumidity d) g2
    \<and> trend_glyph_spec 1 (OutdoorTemperature d) (LastHourOutdoorTemperature d) g3"
proof -
  define g1 where "g1 =
     (if flt (fsub (Temperature d) (LastHourTemperature d)) (Finite (- 0.5)) then CHR 0x19
      else if fgt (fsub (Temperature d) (LastHourTemperature d)) (Finite 0.5) then CHR 0x18 else CHR '' '')"
  define g2 where "g2 =
     (if flt (fsub (RelativeHumidity d) (LastHourRelativeHumidity d)) (Finite (- 0.5)) then CHR 0x19
      else if fgt (fsub (RelativeHumidity d) (LastHourRelativeHumidity d)) (Finite 0.5) then CHR 0x18 else CHR '' '')"
  define g3 where "g3 =
     (if flt (fsub (OutdoorTemperature d) (LastHourOutdoorTemperature d)) (Finite (- 1)) then CHR 0x19
      else if fgt (fsub (OutdoorTemperature d) (LastHourOutdoorTemperature d)) (Finite 1) then CHR 0x18 else CHR '' '')"
  from render_screen_kept [OF assms] obtain d1 where
    d1: "render_screen env d = Return d1" and scr: "screen d' = screen d1" by auto
  from render_screen_length [OF d1] have H: "16 \<le> Height (outputConfig d)" by simp
  then have "2 \<le> Height (outputConfig d) div 8" by (rule slots2)
  then have slots: "0 < nat (Height (outputConfig d) div 8)" "1 < nat (Height (outputConfig d) div 8)"
    by auto
  have s1: "trend_glyph_spec 0.5 (Temperature d) (LastHourTemperature d) g1"
    unfolding g1_def by (rule glyph_meets_spec) simp
  have s2: "trend_glyph_spec 0.5 (RelativeHumidity d) (LastHourRelativeHumidity d) g2"
    unfolding g2_def by (rule glyph_meets_spec) simp
  have s3: "trend_glyph_spec 1 (OutdoorTemperature d) (LastHourOutdoorTemperature d) g3"
    unfolding g3_def by (rule glyph_meets_spec) simp
  from H have "\<not> Height (outputConfig d) < 0" "\<not> Height (outputConfig d) < 8"
    "\<not> Height (outputConfig d) < 16" by simp_all
  with d1 have "screen d1 = (replicate (nat (Height (outputConfig d) div 8)) [])
      [0 := sprintf_f env 1 (Temperature d) @ [g1] @ '' '' @ sprintf_f env 0 (RelativeHumidity d) @ [g2],
       1 := sprintf_f env 1 (OutdoorTemperature d) @ [g3]]"
    unfolding g1_def g2_def g3_def by (auto simp add: render_screen_cases split: if_splits)
  with slots scr have
    "screen d' ! 0 = sprintf_f env 1 (Temperature d) @ [g1]
                        @ '' '' @ sprintf_f env 0 (RelativeHumidity d) @ [g2]"
    "screen d' ! 1 = sprintf_f env 1 (OutdoorTemperature d) @ [g3]"
    by (simp_all add: nth_list_update)
  with s1 s2 s3 show ?thesis by blast
qed

theorem render_trend_glyphs_witness:
  "\<exists>e d' h'. render testEnv testDisplay [] = Return (e, d', h')
     \<and> screen d' ! 0 = ''69.0'' @ [CHR 0x18] @ '' 42'' @ [CHR 0x19]
     \<and> screen d' ! 1 = ''90.0 ''"
proof -
  have H: "Height (outputConfig testDisplay) = 32" "Width (outputConfig testDisplay) = 64"
    by (simp_all add: testDisplay_def initialDisplay_def)
  have "\<exists>d' h'. render testEnv testDisplay [] = Return (None, d', h')"
    by (rule render_returns) (simp_all add: H testDisplay_within_limits testEnv_def)
  then obtain d' h' where
    r: "render testEnv testDisplay [] = Return (None, d', h')" by blast
  from render_trend_glyphs [OF r] obtain g1 g2 g3 where
    l0: "screen d' ! 0 = sprintf_f testEnv 1 (Temperature testDisplay) @ [g1]
           @ '' '' @ sprintf_f testEnv 0 (RelativeHumidity testDisplay) @ [g2]"
    and l1: "screen d' ! 1 = sprintf_f testEnv 1 (OutdoorTemperature testDisplay) @ [g3]"
    and t1: "trend_glyph_spec 0.5 (Temperature testDisplay) (LastHourTemperature testDisplay) g1"
    and t2: "trend_glyph_spec 0.5 (RelativeHumidity testDisplay)
               (LastHourRelativeHumidity testDisplay) g2"
    and t3: "trend_glyph_spec 1 (OutdoorTemperature testDisplay)
               (LastHourOutdoorTemperature testDisplay) g3"
    by blast
  have chg: "fsub (Temperature testDisplay) (LastHourTemperature testDisplay) = Finite 4"
    "fsub (RelativeHumidity testDisplay) (LastHourRelativeHumidity testDisplay) = Finite (- 8)"
    "fsub (OutdoorTemperature testDisplay) (LastHourOutdoorTemperature testDisplay) = Finite 0"
    using round64_4 round64_minus_8
    by (simp_all add: fsub_def testDisplay_def initialDisplay_def round64_def)
  from t1 have "g1 = CHR 0x18"
    by (simp add: trend_glyph_spec_def chg fgt_def fle_def fabs_def)
  moreover from t2 have "g2 = CHR 0x19"
    by (simp add: trend_glyph_spec_def chg fgt_def fle_def fabs_def)
  moreover from t3 have "g3 = CHR '' ''"
    by (simp add: trend_glyph_spec_def chg fgt_def fle_def fabs_def)
  ultimately show ?thesis using r l0 l1
    by (simp add: testEnv_def testDisplay_def initialDisplay_def)
qed

subsection \<open>The height of the display\<close>

text \<open>
  C9, as stated, at a negative height: \<open>make\<close> panics on the negative length, and no
  slot of the screen is indexed.
\<close>

theorem render_negative_height:
  "Height (outputConfig (withHeight (- 8))) < 16
   \<and> render testEnv (withHeight (- 8)) [] = Panicked MakeSliceLenOutOfRange"
  using render_panics_below_16 [of "withHeight (- 8)" testEnv "[]"]
  by (simp add: withHeight_def)

text \<open>
  C9, amended. Below 16 rows \<open>render\<close> panics: it allocates \<open>floor(Height / 8)\<close>
  slots and writes slots 0 and 1, out of range for a height from 0 to 15, and the
  allocation itself panics for a negative height. So \<open>render\<close> returns only when the
  height is at least 16; and the draw loop reads slot \<open>i / 8\<close> for every band
  \<open>i = 0, 8, ...\<close> below the height: when \<open>render\<close> returns \<open>nil\<close>, each of these
  slots is within the screen.
\<close>

theorem render_height_precondition:
  "(Height (outputConfig d) < 16 \<longrightarrow>
      render env d h =
        Panicked (if Height (outputConfig d) < 0 then MakeSliceLenOutOfRange
                  else if Height (outputConfig d) < 8 then IndexOutOfRange 0 0
                  else IndexOutOfRange 1 1))
   \<and> (render env d h = Return r \<longrightarrow> 16 \<le> Height (outputConfig d))
   \<and> (render env d h = Return (None, d', h') \<and> 0 \<le> i \<and> i < Height (outputConfig d) \<and> 8 dvd i
        \<longrightarrow> i div 8 < int (length (screen d')))"
  using render_panics_below_16 [of d env h] render_returns_from_16 [of env d h r]
    render_reads_every_band [of env d h d' h' i]
  by blast

theorem render_height_precondition_witness:
  "render testEnv (withHeight 8) [] = Panicked (IndexOutOfRange 1 1)
   \<and> (\<exists>d' h'. render testEnv (withHeight 32) [] = Return (None, d', h')
        \<and> 16 \<le> Height (outputConfig (withHeight 32))
        \<and> (24 :: int) div 8 < int (length (screen d')))"
proof -
  have H: "Height (outputConfig (withHeight 32)) = 32" "Width (outputConfig (withHeight 32)) = 64"
    by (simp_all add: withHeight_def)
  have "\<exists>d' h'. render testEnv (withHeight 32) [] = Return (None, d', h')"
    by (rule render_returns) (simp_all add: H testDisplay_within_limits testEnv_def)
  then obtain d' h' where
    r: "render testEnv (withHeight 32) [] = Return (None, d', h')" by blast
  from render_height_precondition
    [where d = "withHeight 32" and env = testEnv and h = "[]" and r = "(None, d', h')"
       and d' = d' and h' = h' and i = 24] r H
  have "16 \<le> Height (outputConfig (withHeight 32))"
    "(24 :: int) div 8 < int (length (screen d'))" by simp_all
  with r render_height_precondition
    [where d = "withHeight 8" and env = testEnv and h = "[]" and r = "(None, d', h')"
       and d' = d' and h' = h' and i = 0]
  show ?thesis by (simp add: withHeight_def)
qed

section \<open>enlargedImage and ServeLargePNG\<close>

subsection \<open>Pixels of a well-formed image\<close>

lemma wf_NewRGBA: "wf_image (NewRGBA r)"
  by (simp add: wf_image_def NewRGBA_def)

lemma Rect_SetRGBA: "Rect (SetRGBA p x y c) = Rect p"
  by (simp add: SetRGBA_def)

lemma wf_SetRGBA: "wf_image p \<Longrightarrow> wf_image (SetRGBA p x y c)"
  by (simp add: wf_image_def SetRGBA_def)

lemma offset_in_range:
  assumes "wf_image p" and "In x y (Rect p)"
  shows "0 \<le> PixOffset p x y \<and> nat (PixOffset p x y) < length (Pix p)"
proof -
  let ?w = "Dx (Rect p)" and ?a = "x - MinX (Rect p)" and ?b = "y - MinY (Rect p)"
  from assms(2) have a: "0 \<le> ?a" "?a < ?w" and b: "0 \<le> ?b" "?b + 1 \<le> Dy (Rect p)"
    by (auto simp: In_def Dx_def Dy_def)
  from a have w: "0 \<le> ?w" by simp
  from b(1) w have nonneg: "0 \<le> ?b * ?w" by simp
  from b(2) w have "(?b + 1) * ?w \<le> Dy (Rect p) * ?w" by (rule mult_right_mono)
  then have "?b * ?w + ?w \<le> ?w * Dy (Rect p)" by (simp add: algebra_simps)
  with a nonneg have "0 \<le> ?b * ?w + ?a" "?b * ?w + ?a < ?w * Dy (Rect p)" by linarith+
  with assms(1) show ?thesis by (simp add: PixOffset_def wf_image_def)
qed

lemma offset_inj:
  assumes "wf_image p" and "In x y (Rect p)" and "In x' y' (Rect p)"
    and "PixOffset p x y = PixOffset p x' y'"
  shows "x = x' \<and> y = y'"
proof -
  let ?w = "Dx (Rect p)"
  from assms(2,3) have a: "0 \<le> x - MinX (Rect p)" "x - MinX (Rect p) < ?w"
    "0 \<le> x' - MinX (Rect p)" "x' - MinX (Rect p) < ?w"
    by (auto simp: In_def Dx_def)
  from assms(1,4) have eq: "(y - MinY (Rect p)) * ?w + (x - MinX (Rect p))
      = (y' - MinY (Rect p)) * ?w + (x' - MinX (Rect p))"
    by (simp add: PixOffset_def wf_image_def)
  let ?L = "(y - MinY (Rect p)) * ?w + (x - MinX (Rect p))"
  let ?R = "(y' - MinY (Rect p)) * ?w + (x' - MinX (Rect p))"
  from a have dy: "?L div ?w = y - MinY (Rect p)" and dy': "?R div ?w = y' - MinY (Rect p)"
    by simp_all
  from eq have "?L div ?w = ?R div ?w" by (simp only:)
  with dy dy' have "y - MinY (Rect p) = y' - MinY (Rect p)" by (simp only:)
  then have "y = y'" by simp
  with eq show ?thesis by simp
qed

lemma RGBAAt_SetRGBA:
  assumes "wf_image p"
  shows "RGBAAt (SetRGBA p x y c) x' y' =
     (if x' = x \<and> y' = y \<and> In x y (Rect p) then c else RGBAAt p x' y')"
proof (cases "In x y (Rect p) \<and> In x' y' (Rect p)")
  case False
  then show ?thesis by (auto simp: RGBAAt_def SetRGBA_def)
next
  case True
  note r = offset_in_range [OF assms]
  show ?thesis
  proof (cases "x' = x \<and> y' = y")
    case True
    with \<open>In x y (Rect p) \<and> In x' y' (Rect p)\<close> r [of x y] show ?thesis
      by (simp add: RGBAAt_def SetRGBA_def PixOffset_def)
  next
    case False
    with offset_inj [OF assms, of x y x' y'] True
    have "PixOffset p x y \<noteq> PixOffset p x' y'" by auto
    with r [of x y] r [of x' y'] True have "nat (PixOffset p x y) \<noteq> nat (PixOffset p x' y')"
      by auto
    with True False show ?thesis
      by (auto simp: RGBAAt_def SetRGBA_def PixOffset_def)
  qed
qed

subsection \<open>The loops write through the pointer of the new image only\<close>

lemma frame_refl: "frame h h img"
  by (simp add: frame_def)

lemma frame_trans: "frame h h1 img \<Longrightarrow> frame h1 h2 img \<Longrightarrow> frame h h2 img"
  by (simp add: frame_def)

lemma frame_ptr_Set: "frame h (ptr_Set h img x y c) img"
  by (cases "img < length h")
    (simp_all add: frame_def ptr_Set_def Rect_SetRGBA wf_SetRGBA list_update_beyond)

lemma frame_enlarge_j: "frame h (enlarge_j h img enlarge space x y val i j) img"
proof (induction h img enlarge space x y val i j rule: enlarge_j.induct)
  case (1 h img enlarge space x y val i j)
  show ?case
  proof (cases "j < enlarge - space")
    case True
    from frame_ptr_Set "1.IH" [OF True] have
      "frame h (enlarge_j (ptr_Set h img (x * enlarge + i) (y * enlarge + j) val)
                  img enlarge space x y val i (j + 1)) img"
      by (rule frame_trans)
    with True show ?thesis by (simp add: enlarge_j.simps [of h img enlarge space x y val i j])
  next
    case False
    then show ?thesis
      by (simp add: enlarge_j.simps [of h img enlarge space x y val i j] frame_refl)
  qed
qed

lemma frame_enlarge_i: "frame h (enlarge_i h img enlarge space x y val i) img"
proof (induction h img enlarge space x y val i rule: enlarge_i.induct)
  case (1 h img enlarge space x y val i)
  show ?case
  proof (cases "i < enlarge - space")
    case True
    from frame_enlarge_j "1.IH" [OF True] have
      "frame h (enlarge_i (enlarge_j h img enlarge space x y val i space)
                  img enlarge space x y val (i + 1)) img"
      by (rule frame_trans)
    with True show ?thesis by (simp add: enlarge_i.simps [of h img enlarge space x y val i])
  next
    case False
    then show ?thesis
      by (simp add: enlarge_i.simps [of h img enlarge space x y val i] frame_refl)
  qed
qed

subsection \<open>The pixels after the loops\<close>

lemma pixel_ptr_Set:
  "img < length h \<Longrightarrow> wf_image (h ! img) \<Longrightarrow>
   RGBAAt (ptr_Set h img x y c ! img) X Y =
     (if X = x \<and> Y = y \<and> In x y (Rect (h ! img)) then c else RGBAAt (h ! img) X Y)"
  by (simp add: ptr_Set_def RGBAAt_SetRGBA)

lemma pixel_enlarge_j:
  "img < length h \<Longrightarrow> wf_image (h ! img) \<Longrightarrow>
   RGBAAt (enlarge_j h img enlarge space x y val i j ! img) X Y =
     (if X = x * enlarge + i \<and> y * enlarge + j \<le> Y \<and> Y < y * enlarge + (enlarge - space)
         \<and> In X Y (Rect (h ! img))
      then val else RGBAAt (h ! img) X Y)"
proof (induction h img enlarge space x y val i j rule: enlarge_j.induct)
  case (1 h img enlarge space x y val i j)
  show ?case
  proof (cases "j < enlarge - space")
    case False
    then show ?thesis
      by (auto simp add: enlarge_j.simps [of h img enlarge space x y val i j])
  next
    case True
    let ?h1 = "ptr_Set h img (x * enlarge + i) (y * enlarge + j) val"
    have f: "frame h ?h1 img" by (rule frame_ptr_Set)
    with "1.prems" have p1: "img < length ?h1" "wf_image (?h1 ! img)"
      and r1: "Rect (?h1 ! img) = Rect (h ! img)"
      by (simp_all add: frame_def)
    from "1.IH" [OF True p1] r1 have
      "RGBAAt (enlarge_j ?h1 img enlarge space x y val i (j + 1) ! img) X Y =
         (if X = x * enlarge + i \<and> y * enlarge + (j + 1) \<le> Y
             \<and> Y < y * enlarge + (enlarge - space) \<and> In X Y (Rect (h ! img))
          then val else RGBAAt (?h1 ! img) X Y)"
      by simp
    with True "1.prems" show ?thesis
      by (cases "Y = y * enlarge + j")
        (auto simp add: enlarge_j.simps [of h img enlarge space x y val i j] pixel_ptr_Set)
  qed
qed

lemma pixel_enlarge_i:
  "img < length h \<Longrightarrow> wf_image (h ! img) \<Longrightarrow>
   RGBAAt (enlarge_i h img enlarge space x y val i ! img) X Y =
     (if x * enlarge + i \<le> X \<and> X < x * enlarge + (enlarge - space)
         \<and> y * enlarge + space \<le> Y \<and> Y < y * enlarge + (enlarge - space)
         \<and> In X Y (Rect (h ! img))
      then val else RGBAAt (h ! img) X Y)"
proof (induction h img enlarge space x y val i rule: enlarge_i.induct)
  case (1 h img enlarge space x y val i)
  show ?case
  proof (cases "i < enlarge - space")
    case False
    then show ?thesis
      by (auto simp add: enlarge_i.simps [of h img enlarge space x y val i])
  next
    case True
    let ?h1 = "enlarge_j h img enlarge space x y val i space"
    have f: "frame h ?h1 img" by (rule frame_enlarge_j)
    with "1.prems" have p1: "img < length ?h1" "wf_image (?h1 ! img)"
      and r1: "Rect (?h1 ! img) = Rect (h ! img)"
      by (simp_all add: frame_def)
    from "1.IH" [OF True p1] r1 have
      "RGBAAt (enlarge_i ?h1 img enlarge space x y val (i + 1) ! img) X Y =
         (if x * enlarge + (i + 1) \<le> X \<and> X < x * enlarge + (enlarge - space)
             \<and> y * enlarge + space \<le> Y \<and> Y < y * enlarge + (enlarge - space)
             \<and> In X Y (Rect (h ! img))
          then val else RGBAAt (?h1 ! img) X Y)"
      by simp
    with True "1.prems" show ?thesis
      by (cases "X = x * enlarge + i")
        (auto simp add: enlarge_i.simps [of h img enlarge space x y val i] pixel_enlarge_j)
  qed
qed

lemma enlarge_x_one_pixel:
  assumes "Rect (h ! src) = image_Rect 0 0 1 1"
  shows "enlarge_x h src img enlarge space 0 =
           enlarge_i h img enlarge space 0 0 (ptr_At h src 0 0) space"
proof -
  let ?val = "ptr_At h src 0 0"
  let ?h1 = "enlarge_i h img enlarge space 0 0 ?val space"
  from assms have b: "Dx (ptr_Bounds h src) = 1" "Dy (ptr_Bounds h src) = 1"
    by (simp_all add: ptr_Bounds_def image_Rect_def Dx_def Dy_def)
  then have b1: "Dy (ptr_Bounds ?h1 src) = 1" "Dx (ptr_Bounds ?h1 src) = 1"
    by (simp_all add: ptr_Bounds_enlarge_i)
  from b b1 have y: "enlarge_y h src img enlarge space 0 0 = ?h1"
    by (simp add: enlarge_y.simps [of h src img enlarge space 0 0]
        enlarge_y.simps [of ?h1 src img enlarge space 0 1] Let_def)
  with b b1 show ?thesis
    by (simp add: enlarge_x.simps [of h src img enlarge space 0]
        enlarge_x.simps [of ?h1 src img enlarge space 1])
qed

lemma enlargedImage_one_pixel:
  assumes "image d = Some src" and "src < length h"
    and "h ! src = \<lparr>Pix = [c], Stride = 1, Rect = image_Rect 0 0 1 1\<rparr>"
  shows "enlargedImage d h enlarge space =
     (length h,
      enlarge_i (h @ [NewRGBA (image_Rect 0 0 enlarge enlarge)]) (length h)
        enlarge space 0 0 c space)"
proof -
  let ?h2 = "h @ [NewRGBA (image_Rect 0 0 enlarge enlarge)]"
  from assms(2,3) have src: "?h2 ! src = \<lparr>Pix = [c], Stride = 1, Rect = image_Rect 0 0 1 1\<rparr>"
    by (simp add: nth_append)
  then have val: "ptr_At ?h2 src 0 0 = c"
    by (simp add: ptr_At_def RGBAAt_def In_def PixOffset_def image_Rect_def)
  from src have "Rect (?h2 ! src) = image_Rect 0 0 1 1" by simp
  from enlarge_x_one_pixel [OF this] val
  have "enlarge_x ?h2 src (length h) enlarge space 0 =
          enlarge_i ?h2 (length h) enlarge space 0 0 c space" by simp
  moreover from assms(3) have "Dx (ptr_Bounds h src) = 1" "Dy (ptr_Bounds h src) = 1"
    by (simp_all add: ptr_Bounds_def image_Rect_def Dx_def Dy_def)
  ultimately show ?thesis using assms(1)
    by (simp add: enlargedImage_def new_RGBA_def)
qed

text \<open>
  C6. Enlarging an image of one pixel with factor 16 and margin 2 returns a new image
  of 16 by 16 pixels in which the pixels 2 to 13 of each axis have the colour of the
  source pixel and every other pixel has the zero colour it was created with; every
  image the store held before, the source among them, is unchanged.
\<close>

theorem enlargedImage_16_2:
  assumes "image d = Some src" and "src < length h"
    and "h ! src = \<lparr>Pix = [c], Stride = 1, Rect = image_Rect 0 0 1 1\<rparr>"
  shows "\<exists>img h'. enlargedImage d h 16 2 = (img, h')
     \<and> ptr_Bounds h' img = image_Rect 0 0 16 16
     \<and> (\<forall>X Y. 0 \<le> X \<and> X < 16 \<and> 0 \<le> Y \<and> Y < 16 \<longrightarrow>
           ptr_At h' img X Y =
             (if 2 \<le> X \<and> X \<le> 13 \<and> 2 \<le> Y \<and> Y \<le> 13 then c else RGBA 0 0 0 0))
     \<and> (\<forall>q < length h. h' ! q = h ! q)"
proof -
  let ?new = "NewRGBA (image_Rect 0 0 16 16)"
  let ?h2 = "h @ [?new]"
  let ?h' = "enlarge_i ?h2 (length h) 16 2 0 0 c 2"
  have e: "enlargedImage d h 16 2 = (length h, ?h')"
    by (rule enlargedImage_one_pixel [OF assms])
  have img: "length h < length ?h2" "wf_image (?h2 ! length h)"
    by (simp_all add: wf_NewRGBA)
  have f: "frame ?h2 ?h' (length h)" by (rule frame_enlarge_i)
  then have bounds: "ptr_Bounds ?h' (length h) = image_Rect 0 0 16 16"
    by (simp add: frame_def ptr_Bounds_def NewRGBA_def)
  from f have old: "\<forall>q < length h. ?h' ! q = h ! q"
    by (auto simp: frame_def nth_append)
  have blank: "RGBAAt ?new X Y = RGBA 0 0 0 0" for X Y
    using offset_in_range [OF wf_NewRGBA, of X Y "image_Rect 0 0 16 16"]
    by (auto simp: RGBAAt_def NewRGBA_def)
  have "ptr_At ?h' (length h) X Y =
          (if 2 \<le> X \<and> X \<le> 13 \<and> 2 \<le> Y \<and> Y \<le> 13 then c else RGBA 0 0 0 0)"
    if "0 \<le> X \<and> X < 16 \<and> 0 \<le> Y \<and> Y < 16" for X Y
    using that pixel_enlarge_i [OF img, of 16 2 0 0 c 2 X Y] blank [of X Y]
    by (auto simp: ptr_At_def In_def NewRGBA_def image_Rect_def)
  with e bounds old show ?thesis by blast
qed

theorem enlargedImage_16_2_witness:
  "\<exists>img h'. enlargedImage (testDisplay\<lparr>image := Some 0\<rparr>) [whitePixel] 16 2 = (img, h')
     \<and> ptr_Bounds h' img = image_Rect 0 0 16 16
     \<and> ptr_At h' img 2 13 = RGBA 255 255 255 255
     \<and> ptr_At h' img 1 13 = RGBA 0 0 0 0
     \<and> h' ! 0 = whitePixel"
proof -
  from enlargedImage_16_2 [of "testDisplay\<lparr>image := Some 0\<rparr>" 0 "[whitePixel]" "RGBA 255 255 255 255"]
  obtain img h' where
    "enlargedImage (testDisplay\<lparr>image := Some 0\<rparr>) [whitePixel] 16 2 = (img, h')"
    "ptr_Bounds h' img = image_Rect 0 0 16 16"
    "\<forall>X Y. 0 \<le> X \<and> X < 16 \<and> 0 \<le> Y \<and> Y < 16 \<longrightarrow>
           ptr_At h' img X Y =
             (if 2 \<le> X \<and> X \<le> 13 \<and> 2 \<le> Y \<and> Y \<le> 13 then RGBA 255 255 255 255 else RGBA 0 0 0 0)"
    "\<forall>q < length [whitePixel]. h' ! q = [whitePixel] ! q"
    by (auto simp: whitePixel_def)
  then show ?thesis by force
qed

subsection \<open>Without a published image\<close>

lemma blank_ptr_Set:
  assumes "img < length h" and "Pix (h ! img) = replicate n (RGBA 0 0 0 0)"
  shows "ptr_Set h img x y (RGBA 0 0 0 0) = h"
proof -
  have "(replicate n (RGBA 0 0 0 0))[k := RGBA 0 0 0 0] = replicate n (RGBA 0 0 0 0)" for k
    by (cases "k < n") (simp_all add: list_eq_iff_nth_eq nth_list_update list_update_beyond)
  with assms(2) have "SetRGBA (h ! img) x y (RGBA 0 0 0 0) = h ! img"
    by (simp add: SetRGBA_def)
  then show ?thesis by (simp add: ptr_Set_def)
qed

lemma blank_enlarge_j:
  "img < length h \<Longrightarrow> Pix (h ! img) = replicate n (RGBA 0 0 0 0) \<Longrightarrow>
   enlarge_j h img enlarge space x y (RGBA 0 0 0 0) i j = h"
proof (induction h img enlarge space x y "RGBA 0 0 0 0" i j rule: enlarge_j.induct)
  case (1 h img enlarge space x y i j)
  then show ?case
    by (simp add: enlarge_j.simps [of h img enlarge space x y _ i j] blank_ptr_Set)
qed

lemma blank_enlarge_i:
  "img < length h \<Longrightarrow> Pix (h ! img) = replicate n (RGBA 0 0 0 0) \<Longrightarrow>
   enlarge_i h img enlarge space x y (RGBA 0 0 0 0) i = h"
proof (induction h img enlarge space x y "RGBA 0 0 0 0" i rule: enlarge_i.induct)
  case (1 h img enlarge space x y i)
  then show ?case
    by (simp add: enlarge_i.simps [of h img enlarge space x y _ i] blank_enlarge_j)
qed

lemma enlargedImage_nil:
  assumes "image d = None"
  shows "enlargedImage d h enlarge space =
     (Suc (length h),
      h @ [NewRGBA (image_Rect 0 0 1 1), NewRGBA (image_Rect 0 0 enlarge enlarge)])"
proof -
  let ?h2 = "h @ [NewRGBA (image_Rect 0 0 1 1), NewRGBA (image_Rect 0 0 enlarge enlarge)]"
  have src: "?h2 ! length h = NewRGBA (image_Rect 0 0 1 1)"
    by (simp add: nth_append)
  have img: "?h2 ! Suc (length h) = NewRGBA (image_Rect 0 0 enlarge enlarge)"
    by (simp add: nth_append)
  from src have val: "ptr_At ?h2 (length h) 0 0 = RGBA 0 0 0 0"
    by (simp add: ptr_At_def RGBAAt_def NewRGBA_def In_def PixOffset_def image_Rect_def Dx_def Dy_def)
  from src have "Rect (?h2 ! length h) = image_Rect 0 0 1 1" by (simp add: NewRGBA_def)
  from enlarge_x_one_pixel [OF this] val
  have "enlarge_x ?h2 (length h) (Suc (length h)) enlarge space 0 =
          enlarge_i ?h2 (Suc (length h)) enlarge space 0 0 (RGBA 0 0 0 0) space" by simp
  also from img have "\<dots> = ?h2"
    by (intro blank_enlarge_i [where n = "nat (Dx (image_Rect 0 0 enlarge enlarge) * Dy (image_Rect 0 0 enlarge enlarge))"])
      (simp_all add: NewRGBA_def)
  finally have x: "enlarge_x ?h2 (length h) (Suc (length h)) enlarge space 0 = ?h2" .
  have "Dx (ptr_Bounds (h @ [NewRGBA (image_Rect 0 0 1 1)]) (length h)) = 1"
    "Dy (ptr_Bounds (h @ [NewRGBA (image_Rect 0 0 1 1)]) (length h)) = 1"
    by (simp_all add: ptr_Bounds_def NewRGBA_def image_Rect_def Dx_def Dy_def)
  with x assms show ?thesis
    by (simp add: enlargedImage_def new_RGBA_def)
qed

text \<open>
  C10. While the image of the display is \<open>nil\<close>, \<open>ServeLargePNG\<close> answers with
  status 200 and content type \<open>image/png\<close>: it enlarges a new blank image of one pixel
  and hands the PNG encoder a blank image of 16 by 16 pixels. An error of the encoder
  is logged and does not change the status.
\<close>

theorem ServeLargePNG_without_image:
  assumes "image d = None"
  shows "ServeLargePNG env d h =
     (\<lparr>StatusCode = 200, Header = [(''Content-Type'', ''image/png'')],
       Body = fst (png_Encode env (NewRGBA (image_Rect 0 0 16 16)))\<rparr>,
      (case snd (png_Encode env (NewRGBA (image_Rect 0 0 16 16))) of
         None \<Rightarrow> [] | Some e \<Rightarrow> [(''problem encoding png'', e)]),
      h @ [NewRGBA (image_Rect 0 0 1 1), NewRGBA (image_Rect 0 0 16 16)])
   \<and> Dx (Rect (NewRGBA (image_Rect 0 0 16 16))) = 16
   \<and> Dy (Rect (NewRGBA (image_Rect 0 0 16 16))) = 16
   \<and> Pix (NewRGBA (image_Rect 0 0 16 16)) = replicate 256 (RGBA 0 0 0 0)"
proof -
  have "(h @ [NewRGBA (image_Rect 0 0 1 1), NewRGBA (image_Rect 0 0 16 16)]) ! Suc (length h)
          = NewRGBA (image_Rect 0 0 16 16)"
    by (simp add: nth_append)
  then have "ServeLargePNG env d h =
     (\<lparr>StatusCode = 200, Header = [(''Content-Type'', ''image/png'')],
       Body = fst (png_Encode env (NewRGBA (image_Rect 0 0 16 16)))\<rparr>,
      (case snd (png_Encode env (NewRGBA (image_Rect 0 0 16 16))) of
         None \<Rightarrow> [] | Some e \<Rightarrow> [(''problem encoding png'', e)]),
      h @ [NewRGBA (image_Rect 0 0 1 1), NewRGBA (image_Rect 0 0 16 16)])"
    by (simp add: ServeLargePNG_def enlargedImage_nil [OF assms] split_beta)
  then show ?thesis
    by (simp add: NewRGBA_def image_Rect_def Dx_def Dy_def)
qed

lemma show_int_16: "show_int 16 = ''16''"
  by (simp add: show_int_def show_nat.simps)

theorem ServeLargePNG_without_image_witness:
  "ServeLargePNG testEncoders initialDisplay [] =
     (\<lparr>StatusCode = 200, Header = [(''Content-Type'', ''image/png'')], Body = ''PNG 16x16''\<rparr>,
      [], [NewRGBA (image_Rect 0 0 1 1), NewRGBA (image_Rect 0 0 16 16)])"
proof -
  have "image initialDisplay = None" by (simp add: initialDisplay_def)
  from ServeLargePNG_without_image [OF this, of testEncoders "[]"] show ?thesis
    by (simp add: testEncoders_def NewRGBA_def image_Rect_def Dx_def Dy_def show_int_16)
qed

section \<open>ServeImage\<close>







section \<open>DataVar.UnmarshalJSON\<close>











section \<open>update\<close>

lemma jobs_nth:
  "jobs env ! 0 = (updateTemperature env, ''get temperature'')"
  "jobs env ! 1 = (updateLastHourTemperature env, ''get last hour temperature'')"
  "jobs env ! 2 = (updateRelativeHumidity env, ''get relative humidity'')"
  "jobs env ! 3 = (updateLastHourRelativeHumidity env, ''get last hour relative humidity'')"
  "jobs env ! 4 = (\<lambda>d. snd (updateOutdoorTemperature (mesonet env) d), ''get outdoor temperature'')"
  "length (jobs env) = 5"
  by (simp_all add: jobs_def)

lemma jobs_nth_Suc:
  "jobs env ! Suc 0 = (updateLastHourTemperature env, ''get last hour temperature'')"
  "jobs env ! Suc (Suc 0) = (updateRelativeHumidity env, ''get relative humidity'')"
  "jobs env ! Suc (Suc (Suc 0)) =
     (updateLastHourRelativeHumidity env, ''get last hour relative humidity'')"
  "jobs env ! Suc (Suc (Suc (Suc 0))) =
     (\<lambda>d. snd (updateOutdoorTemperature (mesonet env) d), ''get outdoor temperature'')"
  by (simp_all add: jobs_def)

subsection \<open>Every schedule within the deadline\<close>

text \<open>
  Replacing the state of one goroutine changes the count of received messages by the
  difference of the two states.
\<close>

lemma sum_list_update:
  fixes g :: "nat \<Rightarrow> 'a \<Rightarrow> nat"
  assumes "k < n"
  shows "(\<Sum>i<n. g i (xs[k := v] ! i)) + g k (xs[k := v'] ! k)
       = (\<Sum>i<n. g i (xs[k := v'] ! i)) + g k (xs[k := v] ! k)"
proof -
  have fin: "finite {..<n}" and mem: "k \<in> {..<n}" using assms by simp_all
  have rest: "(\<Sum>i\<in>{..<n} - {k}. g i (xs[k := v] ! i)) = (\<Sum>i\<in>{..<n} - {k}. g i (xs[k := v'] ! i))"
    by (rule sum.cong) auto
  show ?thesis
    unfolding sum.remove [OF fin mem, of "\<lambda>i. g i (xs[k := v] ! i)"]
      sum.remove [OF fin mem, of "\<lambda>i. g i (xs[k := v'] ! i)"] rest
    by simp
qed

lemma taken_update:
  assumes "k < 5" and "length ps = 5"
  shows "(\<Sum>i<5. taken f i (ps[k := p] ! i)) + taken f k (ps ! k)
       = (\<Sum>i<5. taken f i (ps ! i)) + taken f k p"
  using sum_list_update [OF assms(1), of "taken f" ps p "ps ! k"] assms
  by simp

lemma consistent_after:
  assumes "consistent f w st" and "k < 5"
    and "taken f k p = taken f k (procs st ! k) + n"
    and "\<forall>err. p = SendingErr err \<longrightarrow> k = f \<and> err = w"
    and "es = (if f < 5 \<and> ((procs st)[k := p] ! f = SendingNil \<or> (procs st)[k := p] ! f = Exited)
               then [w] else [])"
  shows "consistent f w (st\<lparr>disp := d', procs := (procs st)[k := p], errs := es,
           received := received st + n\<rparr>)"
proof -
  from assms(1) have len: "length (procs st) = 5"
    and rec: "received st = (\<Sum>i<5. taken f i (procs st ! i))"
    and se: "\<forall>i<5. \<forall>err. procs st ! i = SendingErr err \<longrightarrow> i = f \<and> err = w"
    by (simp_all add: consistent_def)
  from taken_update [OF assms(2) len, of f p] assms(3) rec
  have "received st + n = (\<Sum>i<5. taken f i ((procs st)[k := p] ! i))" by simp
  moreover from se assms(2,4) len
  have "\<forall>i<5. \<forall>err. (procs st)[k := p] ! i = SendingErr err \<longrightarrow> i = f \<and> err = w"
    by (auto simp: nth_list_update)
  ultimately show ?thesis using len assms(5) by (simp add: consistent_def)
qed

lemma step_consistent:
  assumes inv: "consistent f w st"
    and succ: "\<forall>k<5. k \<noteq> f \<longrightarrow> job_succeeds env k"
    and fail: "f < 5 \<longrightarrow> job_fails env f e \<and> w = snd (jobs env ! f) @ '': '' @ e"
    and ev: "ev \<noteq> Done" and st: "step env st ev = Some r"
  shows "\<exists>st'. r = Return st' \<and> consistent f w st' \<and> received st' \<le> Suc (received st)"
proof -
  from inv have len: "length (procs st) = 5"
    and se: "\<forall>i<5. \<forall>err. procs st ! i = SendingErr err \<longrightarrow> i = f \<and> err = w"
    and es: "errs st = (if f < 5 \<and> (procs st ! f = SendingNil \<or> procs st ! f = Exited)
                        then [w] else [])"
    by (simp_all add: consistent_def)
  show ?thesis
  proof (cases ev)
    case Done
    with ev show ?thesis by simp
  next
    case (Finish k)
    with st len have k: "k < 5" and run: "procs st ! k = Running"
      by (auto simp: step_def split: if_splits)
    show ?thesis
    proof (cases "k = f")
      case True
      with k fail obtain d' where
        j: "fst (jobs env ! k) (disp st) = Return (Some e, d')" and w: "w = snd (jobs env ! k) @ '': '' @ e"
        by (auto simp: job_fails_def)
      with st Finish k len run have
        r: "r = Return (st\<lparr>disp := d', procs := (procs st)[k := SendingErr w]\<rparr>)"
        by (simp add: step_def)
      have "consistent f w (st\<lparr>disp := d', procs := (procs st)[k := SendingErr w], errs := errs st,
           received := received st + 0\<rparr>)"
        using inv k
      proof (rule consistent_after)
        show "taken f k (SendingErr w) = taken f k (procs st ! k) + 0"
          using run by (simp add: taken_def)
        show "\<forall>err. SendingErr w = SendingErr err \<longrightarrow> k = f \<and> err = w" using True by simp
        show "errs st = (if f < 5 \<and> ((procs st)[k := SendingErr w] ! f = SendingNil
                 \<or> (procs st)[k := SendingErr w] ! f = Exited) then [w] else [])"
          using es True run k len by simp
      qed
      with r show ?thesis by simp
    next
      case False
      with k succ obtain d' where j: "fst (jobs env ! k) (disp st) = Return (None, d')"
        by (auto simp: job_succeeds_def)
      with st Finish k len run have
        r: "r = Return (st\<lparr>disp := d', procs := (procs st)[k := SendingNil]\<rparr>)"
        by (simp add: step_def)
      have "consistent f w (st\<lparr>disp := d', procs := (procs st)[k := SendingNil], errs := errs st,
           received := received st + 0\<rparr>)"
        using inv k
      proof (rule consistent_after)
        show "taken f k SendingNil = taken f k (procs st ! k) + 0"
          using run False by (simp add: taken_def)
        show "\<forall>err. SendingNil = SendingErr err \<longrightarrow> k = f \<and> err = w" by simp
        show "errs st = (if f < 5 \<and> ((procs st)[k := SendingNil] ! f = SendingNil
                 \<or> (procs st)[k := SendingNil] ! f = Exited) then [w] else [])"
          using es False by simp
      qed
      with r show ?thesis by simp
    qed
  next
    case (Receive k)
    with st len have k: "k < 5" by (auto simp: step_def split: if_splits)
    from st Receive k len consider
      (err) err where "procs st ! k = SendingErr err"
        "r = Return (st\<lparr>procs := (procs st)[k := SendingNil],
                    errs := errs st @ [err], received := received st + 1\<rparr>)"
      | (nil) "procs st ! k = SendingNil"
        "r = Return (st\<lparr>procs := (procs st)[k := Exited], received := received st + 1\<rparr>)"
      by (auto simp: step_def split: goroutine.splits)
    then show ?thesis
    proof cases
      case err
      with se k have kf: "k = f" and ew: "err = w" by auto
      have "consistent f w (st\<lparr>disp := disp st, procs := (procs st)[k := SendingNil],
           errs := errs st @ [err], received := received st + 1\<rparr>)"
        using inv k
      proof (rule consistent_after)
        show "taken f k SendingNil = taken f k (procs st ! k) + 1"
          using err(1) kf by (simp add: taken_def)
        show "\<forall>err. SendingNil = SendingErr err \<longrightarrow> k = f \<and> err = w" by simp
        show "errs st @ [err] = (if f < 5 \<and> ((procs st)[k := SendingNil] ! f = SendingNil
                 \<or> (procs st)[k := SendingNil] ! f = Exited) then [w] else [])"
          using es err(1) kf ew k len by simp
      qed
      with err(2) show ?thesis by simp
    next
      case nil
      have "consistent f w (st\<lparr>disp := disp st, procs := (procs st)[k := Exited],
           errs := errs st, received := received st + 1\<rparr>)"
        using inv k
      proof (rule consistent_after)
        show "taken f k Exited = taken f k (procs st ! k) + 1"
          using nil(1) by (simp add: taken_def)
        show "\<forall>err. Exited = SendingErr err \<longrightarrow> k = f \<and> err = w" by simp
        show "errs st = (if f < 5 \<and> ((procs st)[k := Exited] ! f = SendingNil
                 \<or> (procs st)[k := Exited] ! f = Exited) then [w] else [])"
          using es nil(1) k len by (cases "k = f") simp_all
      qed
      with nil(2) show ?thesis by simp
    qed
  qed
qed

lemma receive_loop_consistent:
  assumes "consistent f w st" and "received st \<le> 5"
    and "\<forall>k<5. k \<noteq> f \<longrightarrow> job_succeeds env k"
    and "f < 5 \<longrightarrow> job_fails env f e \<and> w = snd (jobs env ! f) @ '': '' @ e"
    and "Done \<notin> set evs" and "receive_loop env 5 st evs = Some r"
  shows "\<exists>st'. r = Return st' \<and> consistent f w st' \<and> received st' = 5"
  using assms(1,2,5,6)
proof (induction evs arbitrary: st)
  case Nil
  then show ?case
    by (auto simp: receive_loop.simps [of env 5 st "[]"] split: if_splits)
next
  case (Cons ev evs)
  show ?case
  proof (cases "received st < 5")
    case False
    with Cons.prems show ?thesis
      by (auto simp add: receive_loop.simps [of env 5 st "ev # evs"])
  next
    case True
    with Cons.prems(4) obtain r1 where s1: "step env st ev = Some r1"
      by (auto simp: receive_loop.simps [of env 5 st "ev # evs"] split: option.splits)
    from Cons.prems(3) have nd: "ev \<noteq> Done" "Done \<notin> set evs" by auto
    from step_consistent [OF Cons.prems(1) assms(3,4) nd(1) s1]
    obtain st1 where r1: "r1 = Return st1" and c1: "consistent f w st1"
      and b1: "received st1 \<le> Suc (received st)" by auto
    from True b1 have le: "received st1 \<le> 5" by simp
    from True s1 r1 Cons.prems(4) have "receive_loop env 5 st1 evs = Some r"
      by (simp add: receive_loop.simps [of env 5 st "ev # evs"])
    from Cons.IH [OF c1 le nd(2) this] show ?thesis .
  qed
qed

lemma taken_others:
  assumes "length ps = 5" and "(\<Sum>k<5. taken f k (ps ! k)) = 5"
  shows "f < 5 \<longrightarrow> ps ! f = SendingNil \<or> ps ! f = Exited"
    and "\<not> f < 5 \<longrightarrow> (\<forall>k<5. ps ! k = Exited)"
proof -
  have other: "taken f k p \<le> 1" if "k \<noteq> f" for k p
    using that by (simp add: taken_def split: goroutine.splits)
  show "f < 5 \<longrightarrow> ps ! f = SendingNil \<or> ps ! f = Exited"
  proof
    assume f: "f < 5"
    have fin: "finite {..<5::nat}" and mem: "f \<in> {..<5}" using f by simp_all
    have "(\<Sum>k\<in>{..<5} - {f}. taken f k (ps ! k)) \<le> (\<Sum>k\<in>{..<5} - {f}. 1)"
      by (rule sum_mono) (use other in auto)
    also have "\<dots> = 4" using f by simp
    finally have "(\<Sum>k\<in>{..<5} - {f}. taken f k (ps ! k)) \<le> 4" .
    with assms(2) sum.remove [OF fin mem, of "\<lambda>k. taken f k (ps ! k)"]
    have "1 \<le> taken f f (ps ! f)" by simp
    then show "ps ! f = SendingNil \<or> ps ! f = Exited"
      by (simp add: taken_def split: goroutine.splits)
  qed
  show "\<not> f < 5 \<longrightarrow> (\<forall>k<5. ps ! k = Exited)"
  proof (intro impI allI)
    fix k :: nat assume f: "\<not> f < 5" and k: "k < 5"
    then have kf: "k \<noteq> f" by auto
    have fin: "finite {..<5::nat}" and mem: "k \<in> {..<5}" using k by simp_all
    have "(\<Sum>i\<in>{..<5} - {k}. taken f i (ps ! i)) \<le> (\<Sum>i\<in>{..<5} - {k}. 1)"
      using f by (intro sum_mono) (use other in auto)
    also have "\<dots> = 4" using k by simp
    finally have "(\<Sum>i\<in>{..<5} - {k}. taken f i (ps ! i)) \<le> 4" .
    with assms(2) sum.remove [OF fin mem, of "\<lambda>i. taken f i (ps ! i)"]
    have "1 \<le> taken f k (ps ! k)" by simp
    with kf show "ps ! k = Exited"
      by (simp add: taken_def split: goroutine.splits)
  qed
qed

lemma consistent_initial:
  "consistent f w \<lparr>disp = d, procs = replicate 5 Running, errs = [], received = 0\<rparr>"
  by (simp add: consistent_def taken_def)

lemma update_result:
  assumes "\<forall>k<5. k \<noteq> f \<longrightarrow> job_succeeds env k"
    and "f < 5 \<longrightarrow> job_fails env f e \<and> w = snd (jobs env ! f) @ '': '' @ e"
    and "Done \<notin> set schedule" and "update env schedule d = Some r"
  shows "\<exists>d'. r = Return (if f < 5 then Some (''1 errors: '' @ w) else None, d')"
proof -
  let ?st0 = "\<lparr>disp = d, procs = replicate 5 Running, errs = [], received = 0\<rparr>"
  from assms(4) obtain r0 where r0: "receive_loop env 5 ?st0 schedule = Some r0"
    by (auto simp: update_def jobs_nth split: option.splits)
  from receive_loop_consistent [OF consistent_initial _ assms(1,2,3) r0]
  obtain st' where st': "r0 = Return st'" "consistent f w st'" "received st' = 5" by auto
  then have "length (procs st') = 5" "(\<Sum>k<5. taken f k (procs st' ! k)) = 5"
    and es: "errs st' = (if f < 5 \<and> (procs st' ! f = SendingNil \<or> procs st' ! f = Exited)
                         then [w] else [])"
    by (simp_all add: consistent_def)
  from taken_others(1) [OF this(1,2)] es have "errs st' = (if f < 5 then [w] else [])" by simp
  with r0 st'(1) assms(4) show ?thesis
    by (auto simp: update_def jobs_nth show_int_def show_nat.simps)
qed

text \<open>
  On every schedule in which the loop never takes the case \<open>ctx.Done()\<close>:
  when no job fails \<open>update\<close> returns \<open>nil\<close>, and when exactly one job fails
  it returns the combined error of one failure, the name of the job and its error.
\<close>

lemma update_no_failure:
  assumes "\<forall>k<5. job_succeeds env k"
    and "Done \<notin> set schedule" and "update env schedule d = Some r"
  shows "\<exists>d'. r = Return (None, d')"
  using update_result [of 5 env w e schedule d r] assms by simp

lemma update_one_failure:
  assumes "f < 5" and "job_fails env f e" and "\<forall>k<5. k \<noteq> f \<longrightarrow> job_succeeds env k"
    and "Done \<notin> set schedule" and "update env schedule d = Some r"
  shows "\<exists>d'. r = Return (Some (''1 errors: '' @ snd (jobs env ! f) @ '': '' @ e), d')"
  using update_result [of f env e "snd (jobs env ! f) @ '': '' @ e" schedule d r] assms by simp

subsection \<open>A schedule in which update returns early\<close>

lemma outdoor_job_succeeds:
  "snd (updateOutdoorTemperature stationEnv stragglerDisplay) =
     Return (None, stragglerDisplay\<lparr>OutdoorTemperature := Finite (688 / 10),
       LastHourOutdoorTemperature := PosInf, MesonetLastData := 63767616000 * Second\<rparr>)"
  by (simp add: updateOutdoorTemperature_def stationEnv_def stragglerDisplay_def
      initialDisplay_def brooklyn_def
      Since_def Sub_def zeroTime_def Hour_def Minute_def Second_def minDuration_def maxDuration_def
      index_map_def zeroDataVar_def fne_def IsZero_def float64_of_int_def Let_def)

text \<open>
  C2. One job of five fails and the four others would succeed. In this schedule
  \<open>update\<close> returns the combined error of one failure, with the name of the failed
  job, after five receives, two of them from the failed goroutine: the fields of three
  jobs are updated and the weather-station job, which succeeds on the returned display,
  has not written its fields yet.
\<close>

theorem update_returns_before_all_jobs:
  "update homeEnv stragglerSchedule initialDisplay =
     Some (Return (Some ''1 errors: get temperature: query: query: connection refused'',
                   stragglerDisplay))
   \<and> fst (jobs homeEnv ! 4) stragglerDisplay =
     Return (None, stragglerDisplay\<lparr>OutdoorTemperature := Finite (688 / 10),
       LastHourOutdoorTemperature := PosInf, MesonetLastData := 63767616000 * Second\<rparr>)"
proof -
  have "update homeEnv stragglerSchedule initialDisplay =
     Some (Return (Some ''1 errors: get temperature: query: query: connection refused'',
                   stragglerDisplay))"
    by (simp add: update_def jobs_nth jobs_nth_Suc receive_loop.simps step_def stragglerSchedule_def
        updateTemperature_def updateLastHourTemperature_def updateRelativeHumidity_def
        updateLastHourRelativeHumidity_def queryOneInflux_def wrap_query_def homeEnv_def
        stragglerDisplay_def initialDisplay_def eval_nat_numeral show_int_def show_nat.simps)
  moreover have "mesonet homeEnv = stationEnv" by (simp add: homeEnv_def)
  ultimately show ?thesis using outdoor_job_succeeds by (simp add: jobs_nth)
qed

end
